theory Spec2Isabelle
  imports Complex_Main
begin

section \<open>The combined price-bracket / sentiment-bracket aggregation\<close>

text \<open>
  A shallow embedding of \<^verbatim>\<open>analyze_combined_performance\<close> of
  \<^verbatim>\<open>src/Streamlit_fng.py\<close>. The data frame is a list of rows in index order. A float
  column is a column of reals: \<^verbatim>\<open>close\<close> is always a number (\<^verbatim>\<open>load_data\<close> drops
  the rows whose close is NaN), and \<^verbatim>\<open>Fear_Greed\<close>, which the left join leaves NaN
  where no indicator exists, is a \<open>real option\<close> with \<open>None\<close> for NaN. Dates are day
  numbers. Rounding of binary floating point is not modelled.
\<close>

record row =
  date :: int
  ticker :: string
  close :: real
  Fear_Greed :: "real option"

text \<open>The exceptions that numpy and pandas raise inside the function.\<close>

datatype error =
  ValueError_samples_negative
  | ValueError_bins_not_monotonic
  | ValueError_bin_edges_not_unique
  | IndexError_no_bins

datatype fg_label = Fear | Neutral | Greed

subsection \<open>The library functions the code calls\<close>

text \<open>
  \<^verbatim>\<open>DataFrame.tail(n)\<close>: the last \<open>n\<close> rows, all rows when fewer exist, no row for
  \<open>n = 0\<close>, and for a negative \<open>n\<close> every row but the first \<open>|n|\<close>
  (\<^verbatim>\<open>self.iloc[-n:]\<close>).
\<close>

definition tail :: "int \<Rightarrow> 'a list \<Rightarrow> 'a list" where
  "tail n xs =
     (if n = 0 then []
      else if 0 < n then drop (length xs - nat n) xs
      else drop (nat (- n)) xs)"

text \<open>
  \<^verbatim>\<open>np.linspace(start, stop, num)\<close> with the default \<^verbatim>\<open>endpoint=True\<close>: a negative
  \<open>num\<close> raises ValueError; otherwise \<open>num\<close> samples
  \<open>start + i * ((stop - start) / (num - 1))\<close>, the last one overwritten by \<open>stop\<close>
  when \<open>num > 1\<close>; a single sample is \<open>start\<close>.
\<close>

definition linspace :: "real \<Rightarrow> real \<Rightarrow> int \<Rightarrow> error + real list" where
  "linspace start stop num =
     (if num < 0 then Inl ValueError_samples_negative
      else if num \<le> 1 then Inr (replicate (nat num) start)
      else
        (let step = (stop - start) / real_of_int (num - 1);
             y = map (\<lambda>i. real i * step + start) [0..<nat num]
         in Inr (y[nat num - 1 := stop])))"

text \<open>
  \<^verbatim>\<open>bins.searchsorted(x, side='left')\<close> on ascending bins: the first position whose
  edge is not below \<open>x\<close>.
\<close>

definition searchsorted_left :: "real list \<Rightarrow> real \<Rightarrow> nat" where
  "searchsorted_left bins x = length (takeWhile (\<lambda>b. b < x) bins)"

text \<open>
  One value through \<^verbatim>\<open>pd.cut(..., include_lowest=True)\<close>, right-closed bins:
  \<^verbatim>\<open>ids = bins.searchsorted(x, side='left'); ids[x == bins[0]] = 1\<close>, and the value is
  NaN (no category) when it is NaN itself, when \<open>ids = len(bins)\<close> or when \<open>ids = 0\<close>.
  The category is the position \<open>ids - 1\<close> among the \<open>len(bins) - 1\<close> intervals.
\<close>

definition cut_id :: "real list \<Rightarrow> real option \<Rightarrow> nat option" where
  "cut_id bins v =
     (case v of
        None \<Rightarrow> None
      | Some x \<Rightarrow>
          (let ids = (if x = hd bins then 1 else searchsorted_left bins x)
           in if ids = length bins \<or> ids = 0 then None else Some (ids - 1)))"

text \<open>
  \<^verbatim>\<open>pd.cut(x, bins=<array>, include_lowest=True)\<close> on a column: decreasing edges
  raise ValueError (bins must increase monotonically); repeated edges raise ValueError
  (bin edges must be unique, \<^verbatim>\<open>duplicates='raise'\<close> being the default) unless there are
  exactly two edges; \<^verbatim>\<open>bins[0]\<close> of an empty array of edges raises IndexError.
\<close>

definition cut :: "real option list \<Rightarrow> real list \<Rightarrow> error + nat option list" where
  "cut x bins =
     (if \<not> sorted bins then Inl ValueError_bins_not_monotonic
      else if \<not> distinct bins \<and> length bins \<noteq> 2 then Inl ValueError_bin_edges_not_unique
      else if bins = [] then Inl IndexError_no_bins
      else Inr (map (cut_id bins) x))"

text \<open>
  \<^verbatim>\<open>s.shift(-1) - s\<close>: each value subtracted from the one after it; the last row has
  nothing after it and gets NaN.
\<close>

definition shift_minus1 :: "real list \<Rightarrow> real option list" where
  "shift_minus1 s = (if s = [] then [] else map Some (tl s) @ [None])"

definition next_day_gain :: "real list \<Rightarrow> real option list" where
  "next_day_gain s = map (\<lambda>(nxt, c). map_option (\<lambda>v. v - c) nxt) (zip (shift_minus1 s) s)"

subsection \<open>The grouped statistics\<close>

text \<open>
  A row of \<^verbatim>\<open>subset_100\<close> as the aggregation sees it: its next-day gain, its price
  bracket and its sentiment bracket, each possibly NaN.
\<close>

type_synonym keyed = "real option \<times> nat option \<times> fg_label option"

text \<open>
  One row of \<^verbatim>\<open>stats\<close>. The price bracket is kept as its position and the two edges
  of \<^verbatim>\<open>p_bins\<close> it was cut with (pandas prints the interval rounded, the first left
  edge lowered by the precision). \<open>mean\<close> is \<open>None\<close> for NaN.
\<close>

record cell =
  price_bracket :: nat
  price_low :: real
  price_high :: real
  fg_bracket :: fg_label
  mean :: "real option"
  count :: nat
  cell_ticker :: string

definition fg_bins :: "real list" where
  "fg_bins = [0, 3333 / 100, 6667 / 100, 100]"

definition fg_labels :: "fg_label list" where
  "fg_labels = [Fear, Neutral, Greed]"

text \<open>
  The values of \<^verbatim>\<open>next_day_gain\<close> that \<^verbatim>\<open>groupby\<close> hands to \<^verbatim>\<open>mean\<close> and
  \<^verbatim>\<open>count\<close> for one pair of categories: rows with a NaN key belong to no group, and
  both aggregations skip NaN values.
\<close>

definition group_gains :: "keyed list \<Rightarrow> nat \<Rightarrow> fg_label \<Rightarrow> real list" where
  "group_gains rows k f =
     List.map_filter (\<lambda>(g, pb, fb). if pb = Some k \<and> fb = Some f then g else None) rows"

definition agg_cell :: "keyed list \<Rightarrow> real list \<Rightarrow> string \<Rightarrow> nat \<Rightarrow> fg_label \<Rightarrow> cell" where
  "agg_cell rows p_bins tk k f =
     (let gs = group_gains rows k f
      in \<lparr> price_bracket = k, price_low = p_bins ! k, price_high = p_bins ! Suc k,
           fg_bracket = f,
           mean = (if gs = [] then None else Some (sum_list gs / real (length gs))),
           count = length gs,
           cell_ticker = tk \<rparr>)"

text \<open>
  \<^verbatim>\<open>groupby(['price_bracket', 'fg_bracket'], observed=False)\<close>: one row per pair of
  categories, price brackets outermost, whether or not any row of the data has the pair.
\<close>

definition agg :: "keyed list \<Rightarrow> real list \<Rightarrow> string \<Rightarrow> cell list" where
  "agg rows p_bins tk =
     concat (map (\<lambda>k. map (agg_cell rows p_bins tk k) fg_labels) [0..<length p_bins - 1])"

subsection \<open>The function\<close>

text \<open>\<^verbatim>\<open>pd.DataFrame()\<close>, or the concatenation of the one \<^verbatim>\<open>stats\<close> frame.\<close>

datatype frame = Empty_DataFrame | Stats "cell list"

text \<open>
  The rows of the ticker up to the target date, ascending by date: after the filter on
  \<^verbatim>\<open>ticker\<close> the sort by \<^verbatim>\<open>['ticker', 'date']\<close> is a stable sort by date, and
  \<^verbatim>\<open>groupby('ticker')\<close> has one group, or none when no row is left.
\<close>

definition ticker_group :: "row list \<Rightarrow> string \<Rightarrow> int \<Rightarrow> row list" where
  "ticker_group df tk target_date =
     sort_key date (filter (\<lambda>r. date r \<le> target_date) (filter (\<lambda>r. ticker r = tk) df))"

definition keyed_rows :: "row list \<Rightarrow> nat option list \<Rightarrow> nat option list \<Rightarrow> keyed list" where
  "keyed_rows subset_100 pb fb =
     zip (next_day_gain (map close subset_100))
         (zip pb (map (map_option (\<lambda>i. fg_labels ! i)) fb))"

definition min_close :: "row list \<Rightarrow> real" where
  "min_close subset_200 = Min (set (map close subset_200))"

definition max_close :: "row list \<Rightarrow> real" where
  "max_close subset_200 = Max (set (map close subset_200))"

definition analyze_combined_performance ::
  "row list \<Rightarrow> string \<Rightarrow> int \<Rightarrow> int \<Rightarrow> int \<Rightarrow> int \<Rightarrow> error + frame" where
  "analyze_combined_performance df tk target_date lookback_window analysis_window num_brackets =
     (let group = ticker_group df tk target_date
      in if group = [] then Inr Empty_DataFrame
         else
           (let subset_200 = tail lookback_window group
            in if length subset_200 < 2 then Inr Empty_DataFrame
               else
                 (case linspace (min_close subset_200) (max_close subset_200)
                         (num_brackets + 1) of
                       Inl e \<Rightarrow> Inl e
                     | Inr p_bins \<Rightarrow>
                         (let subset_100 = tail analysis_window group
                          in case cut (map (Some \<circ> close) subset_100) p_bins of
                               Inl e \<Rightarrow> Inl e
                             | Inr pb \<Rightarrow>
                                 (case cut (map Fear_Greed subset_100) fg_bins of
                                    Inl e \<Rightarrow> Inl e
                                  | Inr fb \<Rightarrow>
                                      Inr (Stats (agg (keyed_rows subset_100 pb fb) p_bins tk)))))))"

subsection \<open>Views of the function used in the statements\<close>

text \<open>
  \<^verbatim>\<open>group.tail(window)\<close> for the group the function builds: \<^verbatim>\<open>subset_200\<close> is
  \<open>trailing df tk target_date lookback_window\<close> and \<^verbatim>\<open>subset_100\<close> is
  \<open>trailing df tk target_date analysis_window\<close>.
\<close>

definition trailing :: "row list \<Rightarrow> string \<Rightarrow> int \<Rightarrow> int \<Rightarrow> row list" where
  "trailing df tk target_date window = tail window (ticker_group df tk target_date)"

text \<open>
  The rows handed to \<^verbatim>\<open>groupby\<close> when both calls of \<^verbatim>\<open>pd.cut\<close> return: the
  columns \<^verbatim>\<open>next_day_gain\<close>, \<^verbatim>\<open>price_bracket\<close> and \<^verbatim>\<open>fg_bracket\<close> of
  \<^verbatim>\<open>subset_100\<close>.
\<close>

definition stats_rows :: "row list \<Rightarrow> real list \<Rightarrow> keyed list" where
  "stats_rows sub bins =
     keyed_rows sub (map (cut_id bins) (map (Some \<circ> close) sub))
       (map (cut_id fg_bins) (map Fear_Greed sub))"

text \<open>
  The bracket edges as the specification words them: \<open>n\<close> equal-width intervals by
  linear interpolation between \<open>lo\<close> and \<open>hi\<close>, which gives \<open>n + 1\<close> edges.
\<close>

definition interpolated_edges :: "real \<Rightarrow> real \<Rightarrow> nat \<Rightarrow> real list" where
  "interpolated_edges lo hi n = map (\<lambda>i. lo + real i * ((hi - lo) / real n)) [0..<Suc n]"

text \<open>
  The brackets as the specification words them: bracket \<open>k\<close> lies between edge \<open>k\<close>
  and edge \<open>k + 1\<close>, closed above, and closed below for the first bracket only.
\<close>

definition in_bracket :: "real list \<Rightarrow> nat \<Rightarrow> real \<Rightarrow> bool" where
  "in_bracket bins k x =
     (if k = 0 then bins ! 0 \<le> x \<and> x \<le> bins ! 1 else bins ! k < x \<and> x \<le> bins ! Suc k)"

text \<open>
  The sentiment brackets as the specification words them: Fear on \<open>[0, 33.33]\<close>, Neutral
  on \<open>(33.33, 66.67]\<close>, Greed on \<open>(66.67, 100]\<close>; a missing score has no bracket, and
  neither has a score outside \<open>[0, 100]\<close>.
\<close>

definition spec_sentiment :: "real option \<Rightarrow> fg_label option" where
  "spec_sentiment v =
     (case v of
        None \<Rightarrow> None
      | Some s \<Rightarrow>
          if 0 \<le> s \<and> s \<le> 3333 / 100 then Some Fear
          else if 3333 / 100 < s \<and> s \<le> 6667 / 100 then Some Neutral
          else if 6667 / 100 < s \<and> s \<le> 100 then Some Greed
          else None)"

text \<open>
  Step 4 as the specification words it: every observation of the analysis set except the
  last, with its next-day gain, the close of the next observation minus its own.
\<close>

fun with_next_day_gain :: "row list \<Rightarrow> (row \<times> real) list" where
  "with_next_day_gain (r # r' # rs) = (r, close r' - close r) # with_next_day_gain (r' # rs)"
| "with_next_day_gain [r] = []"
| "with_next_day_gain [] = []"

text \<open>
  The gains that the specification groups into the cell of price bracket \<open>k\<close> and
  sentiment bracket \<open>f\<close>: those of the observations whose close lies in bracket \<open>k\<close>
  and whose score lies in bracket \<open>f\<close>.
\<close>

definition spec_cell_gains :: "real list \<Rightarrow> row list \<Rightarrow> nat \<Rightarrow> fg_label \<Rightarrow> real list" where
  "spec_cell_gains edges sub k f =
     map snd (filter (\<lambda>(r, g). in_bracket edges k (close r)
                        \<and> spec_sentiment (Fear_Greed r) = Some f)
                (with_next_day_gain sub))"

text \<open>
  A keyed row that is counted in some cell of a grid with \<open>n\<close> price brackets: its gain,
  its price bracket and its sentiment bracket are all defined.
\<close>

definition counted :: "nat \<Rightarrow> keyed \<Rightarrow> bool" where
  "counted n r = (case r of (g, pb, fb) \<Rightarrow>
      g \<noteq> None \<and> (\<exists>k<n. pb = Some k) \<and> fb \<noteq> None)"

text \<open>The sentiment score of a row is absent or lies in \<open>[0, 100]\<close>, as the data model says.\<close>

definition sentiment_in_range :: "row \<Rightarrow> bool" where
  "sentiment_in_range r =
     (case Fear_Greed r of None \<Rightarrow> True | Some s \<Rightarrow> 0 \<le> s \<and> s \<le> 100)"

subsection \<open>Concrete series\<close>

definition obs :: "int \<Rightarrow> real \<Rightarrow> real option \<Rightarrow> row" where
  "obs d c s = \<lparr> date = d, ticker = ''X'', close = c, Fear_Greed = s \<rparr>"

text \<open>The five days of the specification's scenario.\<close>

definition scenario_df :: "row list" where
  "scenario_df =
     [obs 0 100 (Some 20), obs 1 102 (Some 40), obs 2 98 (Some 60), obs 3 101 (Some 80),
      obs 4 103 None]"

text \<open>Three days on which the price does not move.\<close>

definition flat_df :: "row list" where
  "flat_df = [obs 0 5 (Some 50), obs 1 5 (Some 50), obs 2 5 (Some 50)]"

text \<open>Three days whose first close lies below the range of the last two.\<close>

definition wide_df :: "row list" where
  "wide_df = [obs 0 1 (Some 50), obs 1 5 (Some 50), obs 2 6 (Some 50)]"

text \<open>Three days without any sentiment score.\<close>

definition no_sentiment_df :: "row list" where
  "no_sentiment_df = [obs 0 1 None, obs 1 2 None, obs 2 3 None]"

section \<open>Properties of the library functions\<close>

lemma linspace_edges:
  assumes "1 \<le> n"
  shows "linspace lo hi (int n + 1) = Inr (interpolated_edges lo hi n)"
proof -
  have n0: "real n \<noteq> 0" using assms by simp
  have "(map (\<lambda>i. real i * ((hi - lo) / real n) + lo) [0..<Suc n])[n := hi]
        = interpolated_edges lo hi n"
    unfolding interpolated_edges_def
  proof (rule nth_equalityI)
    show "length ((map (\<lambda>i. real i * ((hi - lo) / real n) + lo) [0..<Suc n])[n := hi]) =
      length (map (\<lambda>i. lo + real i * ((hi - lo) / real n)) [0..<Suc n])" by simp
  next
    fix i assume "i < length ((map (\<lambda>i. real i * ((hi - lo) / real n) + lo) [0..<Suc n])[n := hi])"
    then have i: "i < Suc n" by simp
    show "(map (\<lambda>i. real i * ((hi - lo) / real n) + lo) [0..<Suc n])[n := hi] ! i =
          map (\<lambda>i. lo + real i * ((hi - lo) / real n)) [0..<Suc n] ! i"
    proof (cases "i = n")
      case True
      then show ?thesis using n0 by (simp del: upt_Suc add: nth_list_update)
    next
      case False
      then show ?thesis using i by (simp del: upt_Suc add: nth_list_update add.commute)
    qed
  qed
  moreover have "nat (int n + 1) = Suc n" by simp
  ultimately show ?thesis
    using assms by (simp add: linspace_def Let_def del: upt_Suc)
qed

lemma length_interpolated_edges: "length (interpolated_edges lo hi n) = Suc n"
  by (simp add: interpolated_edges_def)

lemma nth_interpolated_edges:
  "i \<le> n \<Longrightarrow> interpolated_edges lo hi n ! i = lo + real i * ((hi - lo) / real n)"
  unfolding interpolated_edges_def by (simp del: upt_Suc)

lemma interpolated_edges_first: "interpolated_edges lo hi n ! 0 = lo"
  by (simp add: nth_interpolated_edges)

lemma interpolated_edges_last: "1 \<le> n \<Longrightarrow> interpolated_edges lo hi n ! n = hi"
  by (simp add: nth_interpolated_edges)

lemma interpolated_edges_strict:
  assumes "lo < hi" "1 \<le> n"
  shows "sorted_wrt (<) (interpolated_edges lo hi n)"
proof -
  have pos: "0 < (hi - lo) / real n" using assms by simp
  show ?thesis
    unfolding sorted_wrt_iff_nth_less length_interpolated_edges
  proof (intro allI impI)
    fix i j assume "i < j" "j < Suc n"
    then have "real i < real j" by simp
    then have "real i * ((hi - lo) / real n) < real j * ((hi - lo) / real n)"
      by (rule mult_strict_right_mono) (rule pos)
    then show "interpolated_edges lo hi n ! i < interpolated_edges lo hi n ! j"
      using \<open>i < j\<close> \<open>j < Suc n\<close> by (simp add: nth_interpolated_edges)
  qed
qed

lemma strict_sorted_distinct:
  fixes bins :: "real list"
  shows "sorted_wrt (<) bins \<Longrightarrow> sorted bins \<and> distinct bins"
  using strict_sorted_iff by auto

lemma searchsorted_left_below:
  "i < searchsorted_left bins x \<Longrightarrow> bins ! i < x"
  unfolding searchsorted_left_def
  by (metis (mono_tags, lifting) nth_mem set_takeWhileD takeWhile_nth)

lemma searchsorted_left_stop:
  "searchsorted_left bins x < length bins \<Longrightarrow> x \<le> bins ! searchsorted_left bins x"
  unfolding searchsorted_left_def
  using nth_length_takeWhile [of "\<lambda>b. b < x" bins] by simp

lemma searchsorted_left_le: "searchsorted_left bins x \<le> length bins"
  unfolding searchsorted_left_def by (rule length_takeWhile_le)

lemma cut_id_in_bracket:
  assumes "sorted_wrt (<) bins" "2 \<le> length bins" "cut_id bins (Some x) = Some k"
  shows "Suc k < length bins \<and> in_bracket bins k x"
proof (cases "x = hd bins")
  case True
  then have x0: "x = bins ! 0" using assms(2) by (cases bins) auto
  have "bins ! 0 < bins ! 1" using assms(1,2) by (simp add: sorted_wrt_iff_nth_less)
  moreover have "k = 0" using assms(2,3) True by (simp add: cut_id_def split: if_splits)
  ultimately show ?thesis using x0 assms(2) by (simp add: in_bracket_def)
next
  case False
  then have x0: "x \<noteq> bins ! 0" using assms(2) by (cases bins) auto
  let ?ids = "searchsorted_left bins x"
  from assms(3) False have ids: "?ids \<noteq> length bins" "?ids \<noteq> 0" "k = ?ids - 1"
    by (auto simp: cut_id_def Let_def split: if_splits)
  then have lt: "?ids < length bins" using searchsorted_left_le [of bins x] by simp
  have a: "bins ! k < x" using ids by (intro searchsorted_left_below) simp
  have sk: "Suc k = ?ids" using ids by simp
  have b: "x \<le> bins ! Suc k" using searchsorted_left_stop [OF lt] sk by simp
  have "in_bracket bins k x" using a b by (cases "k = 0") (auto simp: in_bracket_def)
  then show ?thesis using lt sk by simp
qed

lemma in_bracket_unique:
  assumes "sorted_wrt (<) bins" "Suc j < length bins" "Suc k < length bins"
    "in_bracket bins j x" "in_bracket bins k x"
  shows "j = k"
proof (rule ccontr)
  assume "j \<noteq> k"
  then consider "j < k" | "k < j" by linarith
  then show False
  proof cases
    case 1
    then have "bins ! Suc j \<le> bins ! k"
      using assms(1,3) by (cases "Suc j = k") (auto simp: sorted_wrt_iff_nth_less less_imp_le)
    moreover have "x \<le> bins ! Suc j" using assms(4) by (auto simp: in_bracket_def split: if_splits)
    moreover have "bins ! k < x" using assms(5) 1 by (auto simp: in_bracket_def split: if_splits)
    ultimately show False by simp
  next
    case 2
    then have "bins ! Suc k \<le> bins ! j"
      using assms(1,2) by (cases "Suc k = j") (auto simp: sorted_wrt_iff_nth_less less_imp_le)
    moreover have "x \<le> bins ! Suc k" using assms(5) by (auto simp: in_bracket_def split: if_splits)
    moreover have "bins ! j < x" using assms(4) 2 by (auto simp: in_bracket_def split: if_splits)
    ultimately show False by simp
  qed
qed

lemma cut_id_covers:
  assumes "2 \<le> length bins" "bins ! 0 \<le> x" "x \<le> bins ! (length bins - 1)"
  shows "\<exists>k. cut_id bins (Some x) = Some k"
proof (cases "x = hd bins")
  case True
  then show ?thesis using assms(1) by (simp add: cut_id_def)
next
  case False
  then have x0: "x \<noteq> bins ! 0" using assms(1) by (cases bins) auto
  let ?ids = "searchsorted_left bins x"
  have "?ids \<noteq> 0"
  proof
    assume z: "?ids = 0"
    have "?ids < length bins" using z assms(1) by auto
    then have "x \<le> bins ! 0" using searchsorted_left_stop [of bins x] z by simp
    then show False using assms(2) x0 by simp
  qed
  moreover have "?ids \<noteq> length bins"
  proof
    assume z: "?ids = length bins"
    have "bins ! (length bins - 1) < x"
      by (rule searchsorted_left_below) (use z assms(1) in simp)
    then show False using assms(3) by simp
  qed
  ultimately show ?thesis using False by (simp add: cut_id_def Let_def)
qed

lemma cut_id_outside:
  assumes "sorted bins" "bins \<noteq> []" "x < bins ! 0 \<or> bins ! (length bins - 1) < x"
  shows "cut_id bins (Some x) = None"
proof -
  have hd: "hd bins = bins ! 0" using assms(2) by (cases bins) auto
  have le: "bins ! 0 \<le> bins ! (length bins - 1)"
    using assms(1,2) by (simp add: sorted_iff_nth_mono)
  then have x0: "x \<noteq> hd bins" using assms(3) hd by auto
  let ?ids = "searchsorted_left bins x"
  from assms(3) show ?thesis
  proof
    assume lt: "x < bins ! 0"
    have "?ids = 0"
    proof (rule ccontr)
      assume "?ids \<noteq> 0"
      then have "bins ! 0 < x" by (intro searchsorted_left_below) simp
      then show False using lt by simp
    qed
    then show ?thesis using x0 by (simp add: cut_id_def)
  next
    assume gt: "bins ! (length bins - 1) < x"
    have "?ids = length bins"
    proof (rule ccontr)
      assume ne: "?ids \<noteq> length bins"
      then have l: "?ids < length bins" using searchsorted_left_le [of bins x] by simp
      then have "x \<le> bins ! ?ids" by (rule searchsorted_left_stop)
      moreover have "bins ! ?ids \<le> bins ! (length bins - 1)"
        using assms(1) l by (simp add: sorted_iff_nth_mono)
      ultimately show False using gt by simp
    qed
    then show ?thesis using x0 by (simp add: cut_id_def)
  qed
qed

lemma interpolated_edges_sorted:
  assumes "lo \<le> hi"
  shows "sorted (interpolated_edges lo hi n)"
proof -
  have nn: "0 \<le> (hi - lo) / real n" using assms by simp
  show ?thesis
    unfolding sorted_iff_nth_mono length_interpolated_edges
  proof (intro allI impI)
    fix i j assume "i \<le> j" "j < Suc n"
    then have "real i \<le> real j" by simp
    then have "real i * ((hi - lo) / real n) \<le> real j * ((hi - lo) / real n)"
      by (rule mult_right_mono) (rule nn)
    then show "interpolated_edges lo hi n ! i \<le> interpolated_edges lo hi n ! j"
      using \<open>i \<le> j\<close> \<open>j < Suc n\<close> by (simp add: nth_interpolated_edges)
  qed
qed

lemma min_close_le: "r \<in> set rows \<Longrightarrow> min_close rows \<le> close r"
  unfolding min_close_def by (intro Min_le) auto

lemma le_max_close: "r \<in> set rows \<Longrightarrow> close r \<le> max_close rows"
  unfolding max_close_def by (intro Max_ge) auto

lemma min_close_le_max_close:
  assumes "rows \<noteq> []"
  shows "min_close rows \<le> max_close rows"
proof -
  have "hd rows \<in> set rows" using assms by simp
  then show ?thesis by (blast intro: order_trans min_close_le le_max_close)
qed

lemma cut_ok:
  assumes "sorted bins" "distinct bins \<or> length bins = 2" "bins \<noteq> []"
  shows "cut x bins = Inr (map (cut_id bins) x)"
  using assms by (auto simp: cut_def)

lemma fg_bins_strict: "sorted_wrt (<) fg_bins"
  by (simp add: fg_bins_def)

lemma cut_fg_bins: "cut x fg_bins = Inr (map (cut_id fg_bins) x)"
  using strict_sorted_distinct [OF fg_bins_strict] by (intro cut_ok) (auto simp: fg_bins_def)

lemma cut_p_bins:
  assumes "1 \<le> n" "lo < hi \<or> (lo = hi \<and> n = 1)"
  shows "cut x (interpolated_edges lo hi n) = Inr (map (cut_id (interpolated_edges lo hi n)) x)"
proof (rule cut_ok)
  show "sorted (interpolated_edges lo hi n)"
    using assms(2) by (intro interpolated_edges_sorted) auto
  show "distinct (interpolated_edges lo hi n) \<or> length (interpolated_edges lo hi n) = 2"
    using assms strict_sorted_distinct [OF interpolated_edges_strict, of lo hi n]
    by (auto simp: length_interpolated_edges)
  show "interpolated_edges lo hi n \<noteq> []"
    by (simp add: interpolated_edges_def)
qed

lemma analyze_stats:
  assumes "2 \<le> length (trailing df tk d lb)" "1 \<le> nb"
    "min_close (trailing df tk d lb) < max_close (trailing df tk d lb) \<or> nb = 1"
  shows "analyze_combined_performance df tk d lb aw nb =
     Inr (Stats (agg (stats_rows (trailing df tk d aw)
                        (interpolated_edges (min_close (trailing df tk d lb))
                           (max_close (trailing df tk d lb)) (nat nb)))
                   (interpolated_edges (min_close (trailing df tk d lb))
                           (max_close (trailing df tk d lb)) (nat nb)) tk))"
proof -
  let ?s = "trailing df tk d lb"
  have ne: "?s \<noteq> []" using assms(1) by auto
  then have g: "ticker_group df tk d \<noteq> []"
    by (auto simp: trailing_def tail_def split: if_splits)
  have n1: "1 \<le> nat nb" using assms(2) by simp
  have lin: "linspace (min_close ?s) (max_close ?s) (nb + 1)
      = Inr (interpolated_edges (min_close ?s) (max_close ?s) (nat nb))"
    using linspace_edges [OF n1, of "min_close ?s" "max_close ?s"] assms(2) by simp
  have le: "min_close ?s \<le> max_close ?s" by (rule min_close_le_max_close [OF ne])
  have c: "min_close ?s < max_close ?s \<or> (min_close ?s = max_close ?s \<and> nat nb = 1)"
    using assms(3) le by auto
  note cp = cut_p_bins [OF n1 c]
  show ?thesis
    using assms(1) g
    by (simp add: analyze_combined_performance_def Let_def lin cp cut_fg_bins
        stats_rows_def trailing_def [symmetric])
qed

lemma length_agg: "length (agg rows bins tk) = 3 * (length bins - 1)"
  by (simp add: agg_def fg_labels_def length_concat comp_def sum_list_triv)

lemma agg_cell_mem:
  "c \<in> set (agg rows bins tk) \<Longrightarrow>
     \<exists>k f. k < length bins - 1 \<and> c = agg_cell rows bins tk k f"
  by (auto simp: agg_def)

lemma agg_mean_undefined_iff:
  "c \<in> set (agg rows bins tk) \<Longrightarrow> (mean c = None) = (count c = 0)"
  by (auto dest!: agg_cell_mem simp: agg_cell_def Let_def split: if_splits)

lemma group_gains_Nil: "group_gains [] k f = []"
  by (simp add: group_gains_def List.map_filter_simps)

lemma group_gains_Cons:
  "group_gains ((g, pb, fb) # rows) k f =
     (if pb = Some k \<and> fb = Some f \<and> g \<noteq> None then the g # group_gains rows k f
      else group_gains rows k f)"
  by (auto simp: group_gains_def List.map_filter_simps split: option.splits)

lemma group_gains_append:
  "group_gains (xs @ ys) k f = group_gains xs k f @ group_gains ys k f"
  by (simp add: group_gains_def List.map_filter_def)

lemma sum_list_indicator:
  "sum_list (map (\<lambda>k. if k = j then (1::nat) else 0) [0..<n]) = (if j < n then 1 else 0)"
  by (induction n) auto

lemma next_day_gain_Nil: "next_day_gain [] = []"
  by (simp add: next_day_gain_def shift_minus1_def)

lemma next_day_gain_single: "next_day_gain [c] = [None]"
  by (simp add: next_day_gain_def shift_minus1_def)

lemma next_day_gain_Cons2:
  "next_day_gain (c # c' # cs) = Some (c' - c) # next_day_gain (c' # cs)"
  by (simp add: next_day_gain_def shift_minus1_def)

lemma length_next_day_gain: "length (next_day_gain s) = length s"
  by (simp add: next_day_gain_def shift_minus1_def)

lemma count_bracket:
  "(\<Sum>f\<leftarrow>fg_labels. length (group_gains rows k f))
     = length (filter (\<lambda>(g, pb, fb). g \<noteq> None \<and> pb = Some k \<and> fb \<noteq> None) rows)"
proof (induction rows)
  case Nil
  then show ?case by (simp add: group_gains_Nil fg_labels_def)
next
  case (Cons r rows)
  obtain g pb fb where r: "r = (g, pb, fb)" by (cases r)
  show ?case
  proof (cases fb)
    case None
    then show ?thesis using Cons r by (simp add: group_gains_Cons fg_labels_def)
  next
    case (Some f)
    then show ?thesis using Cons r by (cases f) (simp_all add: group_gains_Cons fg_labels_def)
  qed
qed

lemma nth_next_day_gain:
  "Suc i < length s \<Longrightarrow> next_day_gain s ! i = Some (s ! Suc i - s ! i)"
proof (induction s arbitrary: i rule: induct_list012)
  case (3 c c' cs)
  then show ?case by (cases i) (simp_all add: next_day_gain_Cons2)
qed simp_all

lemma last_next_day_gain: "s \<noteq> [] \<Longrightarrow> last (next_day_gain s) = None"
proof (induction s rule: induct_list012)
  case (3 c c' cs)
  have "next_day_gain (c' # cs) \<noteq> []"
    using length_next_day_gain [of "c' # cs"] by (metis length_0_conv list.distinct(1))
  then show ?case using 3 by (simp add: next_day_gain_Cons2)
qed (simp_all add: next_day_gain_single)

lemma length_filter_disj:
  "(\<And>x. x \<in> set xs \<Longrightarrow> \<not> (A x \<and> B x)) \<Longrightarrow>
     length (filter (\<lambda>x. A x \<or> B x) xs) = length (filter A xs) + length (filter B xs)"
  by (induction xs) auto

lemma counted_Suc:
  "counted (Suc n) r =
     (counted n r \<or> (case r of (g, pb, fb) \<Rightarrow> g \<noteq> None \<and> pb = Some n \<and> fb \<noteq> None))"
  by (cases r) (auto simp: counted_def less_Suc_eq)

lemma count_filter_brackets:
  "(\<Sum>k\<leftarrow>[0..<n]. length (filter (\<lambda>(g, pb, fb). g \<noteq> None \<and> pb = Some k \<and> fb \<noteq> None) rows))
     = length (filter (counted n) rows)"
proof (induction n)
  case 0
  then show ?case by (simp add: counted_def)
next
  case (Suc n)
  have "length (filter (counted (Suc n)) rows)
      = length (filter (counted n) rows)
        + length (filter (\<lambda>(g, pb, fb). g \<noteq> None \<and> pb = Some n \<and> fb \<noteq> None) rows)"
    unfolding counted_Suc
    by (rule length_filter_disj) (auto simp: counted_def)
  then show ?case using Suc by simp
qed

lemma sum_list_concat_nat:
  fixes xss :: "nat list list"
  shows "sum_list (concat xss) = sum_list (map sum_list xss)"
  by (induction xss) simp_all

lemma agg_keys:
  "map (\<lambda>c. (price_bracket c, fg_bracket c)) (agg rows bins tk)
     = List.product [0..<length bins - 1] fg_labels"
  by (simp add: agg_def agg_cell_def Let_def List.product_concat_map map_concat comp_def)

lemma sum_count_agg:
  "sum_list (map count (agg rows bins tk)) = length (filter (counted (length bins - 1)) rows)"
proof -
  have "map count (agg rows bins tk)
      = concat (map (\<lambda>k. map (\<lambda>f. length (group_gains rows k f)) fg_labels) [0..<length bins - 1])"
    by (simp add: agg_def map_concat comp_def agg_cell_def Let_def)
  then have "sum_list (map count (agg rows bins tk))
      = (\<Sum>k\<leftarrow>[0..<length bins - 1]. \<Sum>f\<leftarrow>fg_labels. length (group_gains rows k f))"
    by (simp add: sum_list_concat_nat comp_def)
  then show ?thesis by (simp only: count_bracket count_filter_brackets)
qed

lemma cut_id_bound:
  assumes "bins \<noteq> []" "cut_id bins v = Some k"
  shows "Suc k < length bins"
proof -
  obtain x where v: "v = Some x" using assms(2) by (cases v) (auto simp: cut_id_def)
  define ids where "ids = (if x = hd bins then 1 else searchsorted_left bins x)"
  have c: "ids \<noteq> length bins" "ids \<noteq> 0" "k = ids - 1"
    using assms(2) v by (auto simp: cut_id_def Let_def ids_def split: if_splits)
  have "1 \<le> length bins" using assms(1) by (simp add: Suc_leI)
  then have "ids \<le> length bins"
    using searchsorted_left_le [of bins x] by (simp add: ids_def)
  then show ?thesis using c by simp
qed

lemma cut_id_defined_iff:
  assumes "sorted bins" "2 \<le> length bins"
  shows "(cut_id bins (Some x) \<noteq> None) = (bins ! 0 \<le> x \<and> x \<le> bins ! (length bins - 1))"
proof
  have ne: "bins \<noteq> []" using assms(2) by auto
  assume "cut_id bins (Some x) \<noteq> None"
  then have "\<not> (x < bins ! 0 \<or> bins ! (length bins - 1) < x)"
    using cut_id_outside [OF assms(1) ne, of x] by auto
  then show "bins ! 0 \<le> x \<and> x \<le> bins ! (length bins - 1)" by auto
next
  assume "bins ! 0 \<le> x \<and> x \<le> bins ! (length bins - 1)"
  then show "cut_id bins (Some x) \<noteq> None"
    using cut_id_covers [OF assms(2), of x] by auto
qed

lemma cut_id_None: "cut_id bins None = None"
  by (simp add: cut_id_def)

lemma fg_defined_iff:
  "(cut_id fg_bins (Some s) \<noteq> None) = (0 \<le> s \<and> s \<le> 100)"
  using cut_id_defined_iff [of fg_bins s] strict_sorted_distinct [OF fg_bins_strict]
  by (simp add: fg_bins_def)

lemma fg_label_of:
  assumes "0 \<le> s" "s \<le> 100"
  shows "map_option ((!) fg_labels) (cut_id fg_bins (Some s)) =
     Some (if s \<le> 3333 / 100 then Fear else if s \<le> 6667 / 100 then Neutral else Greed)"
  using assms
  by (auto simp: cut_id_def searchsorted_left_def fg_bins_def fg_labels_def Let_def)

lemma stats_rows_Nil: "stats_rows [] bins = []"
  by (simp add: stats_rows_def keyed_rows_def next_day_gain_Nil)

lemma stats_rows_single:
  "stats_rows [r] bins =
     [(None, cut_id bins (Some (close r)), map_option ((!) fg_labels) (cut_id fg_bins (Fear_Greed r)))]"
  by (simp add: stats_rows_def keyed_rows_def next_day_gain_single)

lemma stats_rows_Cons2:
  "stats_rows (r # r' # rs) bins =
     (Some (close r' - close r), cut_id bins (Some (close r)),
      map_option ((!) fg_labels) (cut_id fg_bins (Fear_Greed r))) # stats_rows (r' # rs) bins"
  by (simp add: stats_rows_def keyed_rows_def next_day_gain_Cons2)

lemma length_stats_rows: "length (stats_rows sub bins) = length sub"
  by (simp add: stats_rows_def keyed_rows_def length_next_day_gain)

lemma nth_stats_rows:
  "i < length sub \<Longrightarrow>
     snd (stats_rows sub bins ! i) =
       (cut_id bins (Some (close (sub ! i))),
        map_option ((!) fg_labels) (cut_id fg_bins (Fear_Greed (sub ! i))))"
  by (simp add: stats_rows_def keyed_rows_def length_next_day_gain)

lemma last_stats_rows:
  "sub \<noteq> [] \<Longrightarrow> fst (last (stats_rows sub bins)) = None"
proof (induction sub rule: induct_list012)
  case (3 r r' rs)
  have "stats_rows (r' # rs) bins \<noteq> []"
    using length_stats_rows [of "r' # rs" bins] by (metis length_0_conv list.distinct(1))
  then show ?case using 3 by (simp add: stats_rows_Cons2)
qed (simp_all add: stats_rows_single)

lemma count_stats_rows:
  "length (filter (counted n) (stats_rows sub bins)) =
     length (filter (\<lambda>r. (\<exists>k<n. cut_id bins (Some (close r)) = Some k)
                          \<and> cut_id fg_bins (Fear_Greed r) \<noteq> None) (butlast sub))"
proof (induction sub rule: induct_list012)
  case 1
  then show ?case by (simp add: stats_rows_Nil)
next
  case (2 r)
  then show ?case by (simp add: stats_rows_single counted_def)
next
  case (3 r r' rs)
  then show ?case by (simp add: stats_rows_Cons2 counted_def)
qed

lemma group_gains_drop_row:
  assumes "i < length rows" "fst (rows ! i) = None \<or> fst (snd (rows ! i)) = None
     \<or> snd (snd (rows ! i)) = None"
  shows "group_gains rows k f = group_gains (take i rows @ drop (Suc i) rows) k f"
proof -
  obtain g pb fb where r: "rows ! i = (g, pb, fb)" by (cases "rows ! i")
  have "rows = take i rows @ (g, pb, fb) # drop (Suc i) rows"
    using id_take_nth_drop [OF assms(1)] r by simp
  then have "group_gains rows k f =
      group_gains (take i rows) k f @ group_gains ((g, pb, fb) # drop (Suc i) rows) k f"
    by (metis group_gains_append)
  moreover have "group_gains ((g, pb, fb) # drop (Suc i) rows) k f
      = group_gains (drop (Suc i) rows) k f"
    using assms(2) r by (auto simp: group_gains_Cons)
  ultimately show ?thesis by (simp add: group_gains_append)
qed

lemma agg_cong_gains:
  assumes "\<And>k f. group_gains rows k f = group_gains rows' k f"
  shows "agg rows bins tk = agg rows' bins tk"
proof -
  have "agg_cell rows bins tk k = agg_cell rows' bins tk k" for k
    by (rule ext) (simp add: agg_cell_def assms)
  then show ?thesis by (simp add: agg_def)
qed

lemma agg_drop_row:
  assumes "i < length rows" "fst (rows ! i) = None \<or> fst (snd (rows ! i)) = None
     \<or> snd (snd (rows ! i)) = None"
  shows "agg rows bins tk = agg (take i rows @ drop (Suc i) rows) bins tk"
  by (rule agg_cong_gains) (rule group_gains_drop_row [OF assms])

lemma agg_butlast:
  assumes "rows \<noteq> []" "fst (last rows) = None"
  shows "agg rows bins tk = agg (butlast rows) bins tk"
proof -
  let ?i = "length rows - 1"
  have i: "?i < length rows" using assms(1) by simp
  have "rows ! ?i = last rows" using assms(1) by (simp add: last_conv_nth)
  then have "agg rows bins tk = agg (take ?i rows @ drop (Suc ?i) rows) bins tk"
    using assms(2) by (intro agg_drop_row [OF i]) simp
  moreover have "take ?i rows @ drop (Suc ?i) rows = butlast rows"
    using assms(1) by (simp add: butlast_conv_take)
  ultimately show ?thesis by simp
qed

lemma group_gains_no_sentiment:
  assumes "\<And>r. r \<in> set rows \<Longrightarrow> snd (snd r) = None"
  shows "group_gains rows k f = []"
  using assms
proof (induction rows)
  case Nil
  then show ?case by (simp add: group_gains_Nil)
next
  case (Cons r rows)
  obtain g pb fb where r: "r = (g, pb, fb)" by (cases r)
  have "fb = None" using Cons.prems [of r] r by simp
  then show ?case using Cons r by (simp add: group_gains_Cons)
qed

lemma tail_subset:
  assumes "0 < aw" "aw \<le> lb"
  shows "set (tail aw xs) \<subseteq> set (tail lb xs)"
proof -
  have "length xs - nat lb \<le> length xs - nat aw" using assms by simp
  then show ?thesis using assms by (simp add: tail_def set_drop_subset_set_drop)
qed

lemma length_tail_le: "length (tail n xs) \<le> length xs"
  by (simp add: tail_def)

lemma interpolated_edges_flat: "interpolated_edges c c n = replicate (Suc n) c"
  unfolding interpolated_edges_def by (simp add: map_replicate_const del: upt_Suc)

lemma cut_flat:
  assumes "2 \<le> n"
  shows "cut x (c # replicate n c) = Inl ValueError_bin_edges_not_unique"
  using assms by (simp add: cut_def)

lemma ticker_group_empty_iff:
  "(ticker_group df tk d = []) = (\<not> (\<exists>r\<in>set df. ticker r = tk \<and> date r \<le> d))"
proof -
  let ?f = "filter (\<lambda>r. date r \<le> d) (filter (\<lambda>r. ticker r = tk) df)"
  have "length (ticker_group df tk d) = length ?f"
    unfolding ticker_group_def by (rule length_sort)
  then have "(ticker_group df tk d = []) = (?f = [])"
    by (simp only: length_0_conv [symmetric])
  also have "\<dots> = (\<not> (\<exists>r\<in>set df. ticker r = tk \<and> date r \<le> d))"
    by (auto simp: filter_empty_conv)
  finally show ?thesis .
qed

lemma length_tail_small: "lb = 0 \<or> lb = 1 \<Longrightarrow> length (tail lb xs) < 2"
  by (auto simp: tail_def)

lemma agg_Nil_cell:
  "c \<in> set (agg [] bins tk) \<Longrightarrow> count c = 0 \<and> mean c = None"
  by (auto dest!: agg_cell_mem simp: agg_cell_def group_gains_Nil)

lemma edges_bracket_defined_iff:
  assumes "1 \<le> n" "lo \<le> hi"
  shows "(\<exists>k<n. cut_id (interpolated_edges lo hi n) (Some x) = Some k) = (lo \<le> x \<and> x \<le> hi)"
proof -
  let ?E = "interpolated_edges lo hi n"
  have ne: "?E \<noteq> []" by (simp add: interpolated_edges_def)
  have len: "length ?E = Suc n" by (rule length_interpolated_edges)
  have "(\<exists>k<n. cut_id ?E (Some x) = Some k) = (cut_id ?E (Some x) \<noteq> None)"
    using cut_id_bound [OF ne, of "Some x"] len by auto
  also have "\<dots> = (?E ! 0 \<le> x \<and> x \<le> ?E ! (length ?E - 1))"
    using assms len by (intro cut_id_defined_iff interpolated_edges_sorted) simp_all
  also have "\<dots> = (lo \<le> x \<and> x \<le> hi)"
    using assms(1) by (simp add: len interpolated_edges_first interpolated_edges_last)
  finally show ?thesis .
qed

lemma fg_bracket_defined_iff:
  assumes "sentiment_in_range r"
  shows "(cut_id fg_bins (Fear_Greed r) \<noteq> None) = (Fear_Greed r \<noteq> None)"
proof (cases "Fear_Greed r")
  case None
  then show ?thesis by (simp add: cut_id_None)
next
  case (Some s)
  then show ?thesis using assms fg_defined_iff [of s] by (simp add: sentiment_in_range_def)
qed

lemma trailing_in_range:
  assumes "0 < aw" "aw \<le> lb" "r \<in> set (trailing df tk d aw)"
  shows "min_close (trailing df tk d lb) \<le> close r \<and> close r \<le> max_close (trailing df tk d lb)"
proof -
  have "r \<in> set (trailing df tk d lb)"
    using tail_subset [OF assms(1,2), of "ticker_group df tk d"] assms(3) unfolding trailing_def by blast
  then show ?thesis by (simp add: min_close_le le_max_close)
qed

lemma stats_rows_no_sentiment:
  assumes "\<And>r. r \<in> set sub \<Longrightarrow> Fear_Greed r = None"
  shows "x \<in> set (stats_rows sub bins) \<Longrightarrow> snd (snd x) = None"
  using assms
proof (induction sub rule: induct_list012)
  case 1
  then show ?case by (simp add: stats_rows_Nil)
next
  case (2 r)
  then show ?case by (auto simp: stats_rows_single cut_id_None)
next
  case (3 r r' rs)
  have "Fear_Greed r = None" using 3(4) by simp
  then show ?case using 3 by (auto simp: stats_rows_Cons2 cut_id_None)
qed

lemma agg_no_sentiment:
  assumes "\<And>r. r \<in> set sub \<Longrightarrow> Fear_Greed r = None"
    and "c \<in> set (agg (stats_rows sub bins) bins' tk)"
  shows "count c = 0 \<and> mean c = None"
proof -
  obtain k f where c: "c = agg_cell (stats_rows sub bins) bins' tk k f"
    using agg_cell_mem [OF assms(2)] by blast
  have "group_gains (stats_rows sub bins) k f = []"
    by (rule group_gains_no_sentiment) (rule stats_rows_no_sentiment [OF assms(1)])
  then show ?thesis using c by (simp add: agg_cell_def)
qed

lemma agg_cell_edges:
  assumes "c \<in> set (agg rows bins tk)"
  shows "price_bracket c < length bins - 1 \<and> price_low c = bins ! price_bracket c
     \<and> price_high c = bins ! Suc (price_bracket c)"
  using agg_cell_mem [OF assms] by (auto simp: agg_cell_def Let_def)

lemma stats_rows_gains: "map fst (stats_rows sub bins) = next_day_gain (map close sub)"
  by (simp add: stats_rows_def keyed_rows_def length_next_day_gain)

lemma stats_rows_butlast:
  "agg (stats_rows sub bins) bins' tk = agg (butlast (stats_rows sub bins)) bins' tk"
proof (cases "sub = []")
  case True
  then show ?thesis by (simp add: stats_rows_Nil)
next
  case False
  then have "stats_rows sub bins \<noteq> []"
    using length_stats_rows [of sub bins] by (metis length_0_conv)
  then show ?thesis by (rule agg_butlast) (rule last_stats_rows [OF False])
qed

lemma last_gain_undefined:
  assumes "s \<noteq> []"
  shows "next_day_gain s ! (length s - 1) = None"
proof -
  have ne: "next_day_gain s \<noteq> []"
    using assms length_next_day_gain [of s] by (metis length_0_conv)
  have "last (next_day_gain s) = next_day_gain s ! (length (next_day_gain s) - 1)"
    by (rule last_conv_nth [OF ne])
  then show ?thesis using last_next_day_gain [OF assms] by (simp add: length_next_day_gain)
qed

lemma fg_label_spec:
  "map_option ((!) fg_labels) (cut_id fg_bins v) = spec_sentiment v"
proof (cases v)
  case None
  then show ?thesis by (simp add: cut_id_None spec_sentiment_def)
next
  case (Some s)
  then show ?thesis
    by (auto simp: cut_id_def searchsorted_left_def fg_bins_def fg_labels_def
        spec_sentiment_def Let_def)
qed

lemma cut_id_pair:
  "(cut_id [c, c] (Some x) = Some 0) = in_bracket [c, c] 0 x"
  by (auto simp: cut_id_def searchsorted_left_def in_bracket_def Let_def)

lemma cut_id_iff_in_bracket:
  assumes "sorted bins" and "distinct bins \<or> length bins = 2" and "Suc k < length bins"
  shows "(cut_id bins (Some x) = Some k) = in_bracket bins k x"
proof (cases "distinct bins")
  case True
  then have strict: "sorted_wrt (<) bins" using assms(1) by (simp add: strict_sorted_iff)
  have two: "2 \<le> length bins" using assms(3) by simp
  show ?thesis
  proof
    assume "cut_id bins (Some x) = Some k"
    then show "in_bracket bins k x" using cut_id_in_bracket [OF strict two] by blast
  next
    assume b: "in_bracket bins k x"
    have lo: "bins ! 0 \<le> bins ! k"
      using assms(1,3) by (simp add: sorted_iff_nth_mono)
    have hi: "bins ! Suc k \<le> bins ! (length bins - 1)"
      using assms(1,3) by (simp add: sorted_iff_nth_mono)
    have "bins ! 0 \<le> x" using b lo by (cases "k = 0") (auto simp: in_bracket_def)
    moreover have "x \<le> bins ! (length bins - 1)"
      using b hi by (cases "k = 0") (auto simp: in_bracket_def)
    ultimately obtain j where j: "cut_id bins (Some x) = Some j"
      using cut_id_covers [OF two] by blast
    have jb: "Suc j < length bins" "in_bracket bins j x"
      using cut_id_in_bracket [OF strict two j] by simp_all
    have "j = k" by (rule in_bracket_unique [OF strict jb(1) assms(3) jb(2) b])
    then show "cut_id bins (Some x) = Some k" using j by simp
  qed
next
  case False
  then have len: "length bins = 2" using assms(2) by blast
  then obtain a b where ab: "bins = [a, b]"
    by (cases bins; cases "tl bins") auto
  have "a = b" using False ab by simp
  moreover have "k = 0" using assms(3) len by simp
  ultimately show ?thesis using ab cut_id_pair [of a x] by simp
qed

lemma with_next_day_gain_rows: "map fst (with_next_day_gain sub) = butlast sub"
  by (induction sub rule: induct_list012) simp_all

lemma with_next_day_gain_gains:
  "map (Some \<circ> snd) (with_next_day_gain sub) = butlast (next_day_gain (map close sub))"
proof (induction sub rule: induct_list012)
  case 1
  then show ?case by (simp add: next_day_gain_Nil)
next
  case (2 r)
  then show ?case by (simp add: next_day_gain_single)
next
  case (3 r r' rs)
  have "next_day_gain (map close (r' # rs)) \<noteq> []"
    using length_next_day_gain [of "map close (r' # rs)"] by (metis length_0_conv length_map list.distinct(1))
  then show ?case using 3 by (simp add: next_day_gain_Cons2)
qed

lemma group_gains_spec:
  assumes "\<And>x. (cut_id bins (Some x) = Some k) = in_bracket bins k x"
  shows "group_gains (stats_rows sub bins) k f = spec_cell_gains bins sub k f"
proof (induction sub rule: induct_list012)
  case 1
  then show ?case by (simp add: stats_rows_Nil group_gains_Nil spec_cell_gains_def)
next
  case (2 r)
  then show ?case by (simp add: stats_rows_single group_gains_Cons group_gains_Nil spec_cell_gains_def)
next
  case (3 r r' rs)
  have step: "spec_cell_gains bins (r # r' # rs) k f =
      (if in_bracket bins k (close r) \<and> spec_sentiment (Fear_Greed r) = Some f
       then (close r' - close r) # spec_cell_gains bins (r' # rs) k f
       else spec_cell_gains bins (r' # rs) k f)"
    by (simp add: spec_cell_gains_def)
  show ?case
    unfolding step stats_rows_Cons2 group_gains_Cons fg_label_spec assms 3(2)
    by simp
qed

lemma analyze_grid_cells:
  assumes "analyze_combined_performance df tk d lb aw nb = Inr (Stats cells)"
  shows "\<exists>p_bins. linspace (min_close (trailing df tk d lb)) (max_close (trailing df tk d lb))
            (nb + 1) = Inr p_bins
     \<and> sorted p_bins \<and> (distinct p_bins \<or> length p_bins = 2)
     \<and> 2 \<le> length (trailing df tk d lb)
     \<and> cells = agg (stats_rows (trailing df tk d aw) p_bins) p_bins tk"
proof -
  let ?S = "trailing df tk d lb"
  have g: "ticker_group df tk d \<noteq> []" "\<not> length ?S < 2"
    using assms by (auto simp: analyze_combined_performance_def Let_def trailing_def split: if_splits)
  obtain p_bins where lin: "linspace (min_close ?S) (max_close ?S) (nb + 1) = Inr p_bins"
    using assms g
    by (cases "linspace (min_close ?S) (max_close ?S) (nb + 1)")
       (auto simp: analyze_combined_performance_def Let_def trailing_def)
  let ?x = "map (Some \<circ> close) (trailing df tk d aw)"
  have res: "(case cut ?x p_bins of Inl e \<Rightarrow> Inl e
      | Inr pb \<Rightarrow> (case cut (map Fear_Greed (trailing df tk d aw)) fg_bins of Inl e \<Rightarrow> Inl e
          | Inr fb \<Rightarrow> Inr (Stats (agg (keyed_rows (trailing df tk d aw) pb fb) p_bins tk))))
      = Inr (Stats cells)"
    using assms g lin
    by (simp add: analyze_combined_performance_def Let_def trailing_def [symmetric])
  then obtain pb where pb: "cut ?x p_bins = Inr pb" by (cases "cut ?x p_bins") auto
  then have ok: "sorted p_bins" "distinct p_bins \<or> length p_bins = 2" "p_bins \<noteq> []"
    by (auto simp: cut_def split: if_splits)
  have pb': "pb = map (cut_id p_bins) ?x" using pb cut_ok [OF ok, of ?x] by simp
  have "cells = agg (stats_rows (trailing df tk d aw) p_bins) p_bins tk"
    using res pb pb' by (simp add: cut_fg_bins stats_rows_def)
  then show ?thesis using lin ok g by auto
qed

lemma agg_cell_stats:
  assumes "c \<in> set (agg rows bins tk)"
  shows "price_bracket c < length bins - 1
     \<and> count c = length (group_gains rows (price_bracket c) (fg_bracket c))
     \<and> mean c = (if count c = 0 then None
          else Some (sum_list (group_gains rows (price_bracket c) (fg_bracket c)) / real (count c)))"
  using agg_cell_mem [OF assms] by (auto simp: agg_cell_def Let_def)

lemma agg_spec_cells:
  assumes "sorted bins" and "distinct bins \<or> length bins = 2"
    and "c \<in> set (agg (stats_rows sub bins) bins tk)"
  shows "count c = length (spec_cell_gains bins sub (price_bracket c) (fg_bracket c))
     \<and> mean c = (if count c = 0 then None
          else Some (sum_list (spec_cell_gains bins sub (price_bracket c) (fg_bracket c))
                      / real (count c)))"
proof -
  note s = agg_cell_stats [OF assms(3)]
  have k: "Suc (price_bracket c) < length bins" using s by linarith
  have "group_gains (stats_rows sub bins) (price_bracket c) (fg_bracket c)
      = spec_cell_gains bins sub (price_bracket c) (fg_bracket c)"
    by (rule group_gains_spec) (rule cut_id_iff_in_bracket [OF assms(1,2) k])
  then show ?thesis using s by simp
qed




lemma spec_sentiment_ranges:
  "(spec_sentiment (Some s) = Some Fear) = (0 \<le> s \<and> s \<le> 3333 / 100)"
  "(spec_sentiment (Some s) = Some Neutral) = (3333 / 100 < s \<and> s \<le> 6667 / 100)"
  "(spec_sentiment (Some s) = Some Greed) = (6667 / 100 < s \<and> s \<le> 100)"
  by (auto simp: spec_sentiment_def)

lemma cut_fg_labels:
  "\<exists>fb. cut (map Fear_Greed sub) fg_bins = Inr fb
     \<and> map (map_option ((!) fg_labels)) fb = map (spec_sentiment \<circ> Fear_Greed) sub"
  by (simp add: cut_fg_bins fg_label_spec)

lemma analyze_spec_cells:
  assumes "analyze_combined_performance df tk d lb aw nb = Inr (Stats cells)"
  shows "\<exists>p_bins. linspace (min_close (trailing df tk d lb)) (max_close (trailing df tk d lb))
            (nb + 1) = Inr p_bins
     \<and> cells = agg (stats_rows (trailing df tk d aw) p_bins) p_bins tk
     \<and> (\<forall>c\<in>set cells.
          count c = length (spec_cell_gains p_bins (trailing df tk d aw)
                      (price_bracket c) (fg_bracket c))
          \<and> mean c = (if count c = 0 then None
               else Some (sum_list (spec_cell_gains p_bins (trailing df tk d aw)
                            (price_bracket c) (fg_bracket c)) / real (count c))))"
proof -
  from analyze_grid_cells [OF assms] obtain p_bins where p:
    "linspace (min_close (trailing df tk d lb)) (max_close (trailing df tk d lb)) (nb + 1)
       = Inr p_bins"
    "sorted p_bins" "distinct p_bins \<or> length p_bins = 2"
    "cells = agg (stats_rows (trailing df tk d aw) p_bins) p_bins tk"
    by blast
  have "\<forall>c\<in>set cells.
      count c = length (spec_cell_gains p_bins (trailing df tk d aw)
                  (price_bracket c) (fg_bracket c))
      \<and> mean c = (if count c = 0 then None
           else Some (sum_list (spec_cell_gains p_bins (trailing df tk d aw)
                        (price_bracket c) (fg_bracket c)) / real (count c)))"
  proof
    fix c assume "c \<in> set cells"
    then have "c \<in> set (agg (stats_rows (trailing df tk d aw) p_bins) p_bins tk)"
      using p(4) by simp
    from agg_spec_cells [OF p(2,3) this]
    show "count c = length (spec_cell_gains p_bins (trailing df tk d aw)
                  (price_bracket c) (fg_bracket c))
      \<and> mean c = (if count c = 0 then None
           else Some (sum_list (spec_cell_gains p_bins (trailing df tk d aw)
                        (price_bracket c) (fg_bracket c)) / real (count c)))" .
  qed
  then show ?thesis using p(1,4) by blast
qed

section \<open>The claims\<close>

subsection \<open>C1: the five-day scenario\<close>

text \<open>
  C1, as the specification states it: on the five-day series with \<open>lookback_window = 5\<close>,
  \<open>analysis_window = 5\<close> and \<open>num_brackets = 2\<close> the sentiment brackets of days 0 to 3
  are Fear, Neutral, Greed, Greed and the cells are (bracket 0, Fear) with mean 2 and
  count 1, (bracket 0, Neutral) with mean -4 and count 1, (bracket 1, Greed) with mean
  2.5 and count 2. The function returns another grid: the stated grid is not its result,
  and the stated sentiment brackets are not those of the four days.
\<close>

theorem scenario_spec_grid_counterexample:
  "analyze_combined_performance scenario_df ''X'' 4 5 5 2 \<noteq>
     Inr (Stats
       [\<lparr>price_bracket = 0, price_low = 98, price_high = 201 / 2, fg_bracket = Fear,
          mean = Some 2, count = 1, cell_ticker = ''X''\<rparr>,
        \<lparr>price_bracket = 0, price_low = 98, price_high = 201 / 2, fg_bracket = Neutral,
          mean = Some (- 4), count = 1, cell_ticker = ''X''\<rparr>,
        \<lparr>price_bracket = 0, price_low = 98, price_high = 201 / 2, fg_bracket = Greed,
          mean = None, count = 0, cell_ticker = ''X''\<rparr>,
        \<lparr>price_bracket = 1, price_low = 201 / 2, price_high = 103, fg_bracket = Fear,
          mean = None, count = 0, cell_ticker = ''X''\<rparr>,
        \<lparr>price_bracket = 1, price_low = 201 / 2, price_high = 103, fg_bracket = Neutral,
          mean = None, count = 0, cell_ticker = ''X''\<rparr>,
        \<lparr>price_bracket = 1, price_low = 201 / 2, price_high = 103, fg_bracket = Greed,
          mean = Some (5 / 2), count = 2, cell_ticker = ''X''\<rparr>])
   \<and> map (map_option ((!) fg_labels) \<circ> cut_id fg_bins \<circ> Fear_Greed) (butlast scenario_df)
       \<noteq> [Some Fear, Some Neutral, Some Greed, Some Greed]"
  by code_simp

text \<open>
  C1, amended: on that input the edges are 98, 100.5, 103 and the next-day gains of days
  0 to 3 are 2, -4, 3, 2, as stated; the sentiment brackets of days 0 to 3 are Fear,
  Neutral, Neutral, Greed (60 lies in (33.33, 66.67]); the closes 102 and 101 fall in the
  second price bracket; and the cells are (bracket 0, Fear) with mean 2 and count 1,
  (bracket 0, Neutral) with mean 3 and count 1, (bracket 1, Neutral) with mean -4 and
  count 1, (bracket 1, Greed) with mean 2 and count 1, every other cell with count 0 and
  no mean.
\<close>

theorem scenario_grid:
  "analyze_combined_performance scenario_df ''X'' 4 5 5 2 =
     Inr (Stats
       [\<lparr>price_bracket = 0, price_low = 98, price_high = 201 / 2, fg_bracket = Fear,
          mean = Some 2, count = 1, cell_ticker = ''X''\<rparr>,
        \<lparr>price_bracket = 0, price_low = 98, price_high = 201 / 2, fg_bracket = Neutral,
          mean = Some 3, count = 1, cell_ticker = ''X''\<rparr>,
        \<lparr>price_bracket = 0, price_low = 98, price_high = 201 / 2, fg_bracket = Greed,
          mean = None, count = 0, cell_ticker = ''X''\<rparr>,
        \<lparr>price_bracket = 1, price_low = 201 / 2, price_high = 103, fg_bracket = Fear,
          mean = None, count = 0, cell_ticker = ''X''\<rparr>,
        \<lparr>price_bracket = 1, price_low = 201 / 2, price_high = 103, fg_bracket = Neutral,
          mean = Some (- 4), count = 1, cell_ticker = ''X''\<rparr>,
        \<lparr>price_bracket = 1, price_low = 201 / 2, price_high = 103, fg_bracket = Greed,
          mean = Some 2, count = 1, cell_ticker = ''X''\<rparr>])
   \<and> next_day_gain (map close scenario_df) = [Some 2, Some (- 4), Some 3, Some 2, None]
   \<and> map (map_option ((!) fg_labels) \<circ> cut_id fg_bins \<circ> Fear_Greed) scenario_df
       = [Some Fear, Some Neutral, Some Neutral, Some Greed, None]
   \<and> map (cut_id [98, 201 / 2, 103] \<circ> Some \<circ> close) scenario_df
       = [Some 0, Some 1, Some 0, Some 1, Some 1]"
  by code_simp

subsection \<open>C2: a flat price range\<close>

text \<open>
  C2 says that when every close of the lookback window is the same and the window holds at
  least 2 observations, the call completes without raising. With 2 or more brackets (the
  default is 10) the edges that \<^verbatim>\<open>np.linspace\<close> returns are all equal and
  \<^verbatim>\<open>pd.cut\<close> raises ValueError (bin edges must be unique): the call raises instead of
  returning a grid.
\<close>

theorem flat_range_raises:
  assumes "2 \<le> length (trailing df tk d lb)"
    and "min_close (trailing df tk d lb) = max_close (trailing df tk d lb)"
    and "2 \<le> nb"
  shows "analyze_combined_performance df tk d lb aw nb = Inl ValueError_bin_edges_not_unique"
proof -
  let ?s = "trailing df tk d lb"
  have g: "ticker_group df tk d \<noteq> []"
    using assms(1) by (auto simp: trailing_def tail_def split: if_splits)
  have n: "1 \<le> nat nb" "2 \<le> nat nb" using assms(3) by simp_all
  have "linspace (min_close ?s) (max_close ?s) (nb + 1)
      = Inr (interpolated_edges (min_close ?s) (max_close ?s) (nat nb))"
    using linspace_edges [OF n(1), of "min_close ?s" "max_close ?s"] assms(3) by simp
  then have lin: "linspace (min_close ?s) (max_close ?s) (nb + 1)
      = Inr (max_close ?s # replicate (nat nb) (max_close ?s))"
    by (simp add: assms(2) interpolated_edges_flat)
  show ?thesis
    using assms(1) g
    by (simp add: analyze_combined_performance_def Let_def lin cut_flat [OF n(2)]
        trailing_def [symmetric])
qed

theorem flat_range_raises_witness:
  "analyze_combined_performance flat_df ''X'' 2 200 100 10 = Inl ValueError_bin_edges_not_unique"
proof -
  have h1: "2 \<le> length (trailing flat_df ''X'' 2 200)" by code_simp
  have h2: "min_close (trailing flat_df ''X'' 2 200) = max_close (trailing flat_df ''X'' 2 200)"
    by code_simp
  show ?thesis by (rule flat_range_raises [OF h1 h2]) simp
qed

subsection \<open>C3: the empty result\<close>

text \<open>
  C3, as stated, lists a target date that is not in the series among the cases with an
  empty result. The function only filters on \<open>date \<le> target_date\<close>: for a target date
  after the last of the five days, which is no date of the series, it returns the grid of
  the last day.
\<close>

theorem absent_target_date_counterexample:
  "10 \<notin> set (map date scenario_df)
   \<and> analyze_combined_performance scenario_df ''X'' 10 5 5 2 \<noteq> Inr Empty_DataFrame
   \<and> analyze_combined_performance scenario_df ''X'' 10 5 5 2
       = analyze_combined_performance scenario_df ''X'' 4 5 5 2"
  by code_simp

text \<open>
  C3, amended: the call returns the empty data frame, and no error, exactly when no row
  of the ticker has a date at or before the target date or fewer than 2 rows are in the
  lookback window; whether the target date itself occurs in the series plays no part.
\<close>

theorem empty_result_iff:
  "(analyze_combined_performance df tk d lb aw nb = Inr Empty_DataFrame)
     = (ticker_group df tk d = [] \<or> length (trailing df tk d lb) < 2)
   \<and> (ticker_group df tk d = []) = (\<not> (\<exists>r\<in>set df. ticker r = tk \<and> date r \<le> d))"
  using ticker_group_empty_iff [of df tk d]
  by (auto simp: analyze_combined_performance_def Let_def trailing_def split: sum.splits)

theorem empty_result_iff_witness:
  "analyze_combined_performance scenario_df ''X'' (- 1) 5 5 2 = Inr Empty_DataFrame
   \<and> analyze_combined_performance scenario_df ''X'' 0 5 5 2 = Inr Empty_DataFrame
   \<and> analyze_combined_performance scenario_df ''X'' 1 5 5 2 \<noteq> Inr Empty_DataFrame"
proof -
  have a: "ticker_group scenario_df ''X'' (- 1) = []" by code_simp
  have b: "length (trailing scenario_df ''X'' 0 5) < 2" by code_simp
  have c: "\<not> (ticker_group scenario_df ''X'' 1 = [] \<or> length (trailing scenario_df ''X'' 1 5) < 2)"
    by code_simp
  show ?thesis
    using a b c empty_result_iff [of scenario_df "''X''" "- 1" 5 5 2]
      empty_result_iff [of scenario_df "''X''" 0 5 5 2]
      empty_result_iff [of scenario_df "''X''" 1 5 5 2]
    by blast
qed

subsection \<open>C4: invalid parameters\<close>

text \<open>
  C4, as stated, has every call with \<open>num_brackets \<le> 0\<close>, \<open>lookback_window < 2\<close> or
  \<open>analysis_window < 1\<close> fail with a configuration error. The function checks no
  parameter: a lookback window of 1 or 0 gives the empty data frame, and an analysis
  window of 0 gives a full grid of empty cells.
\<close>

theorem invalid_parameters_counterexample:
  "analyze_combined_performance scenario_df ''X'' 4 1 5 2 = Inr Empty_DataFrame
   \<and> analyze_combined_performance scenario_df ''X'' 4 0 5 2 = Inr Empty_DataFrame
   \<and> analyze_combined_performance scenario_df ''X'' 4 5 0 2 =
       Inr (Stats
         [\<lparr>price_bracket = 0, price_low = 98, price_high = 201 / 2, fg_bracket = Fear,
            mean = None, count = 0, cell_ticker = ''X''\<rparr>,
          \<lparr>price_bracket = 0, price_low = 98, price_high = 201 / 2, fg_bracket = Neutral,
            mean = None, count = 0, cell_ticker = ''X''\<rparr>,
          \<lparr>price_bracket = 0, price_low = 98, price_high = 201 / 2, fg_bracket = Greed,
            mean = None, count = 0, cell_ticker = ''X''\<rparr>,
          \<lparr>price_bracket = 1, price_low = 201 / 2, price_high = 103, fg_bracket = Fear,
            mean = None, count = 0, cell_ticker = ''X''\<rparr>,
          \<lparr>price_bracket = 1, price_low = 201 / 2, price_high = 103, fg_bracket = Neutral,
            mean = None, count = 0, cell_ticker = ''X''\<rparr>,
          \<lparr>price_bracket = 1, price_low = 201 / 2, price_high = 103, fg_bracket = Greed,
            mean = None, count = 0, cell_ticker = ''X''\<rparr>])"
  by code_simp

text \<open>
  C4, amended: no parameter is validated. A lookback window of 0 or 1 yields the empty
  data frame. With at least 2 rows in the lookback window, \<open>num_brackets \<le> -2\<close> raises
  the ValueError of \<^verbatim>\<open>np.linspace\<close> (the number of samples is negative), and an
  analysis window of 0 with valid brackets over a range that is not flat yields the full
  grid with count 0 and no mean in every cell.
\<close>

theorem parameters_not_validated:
  "(lb = 0 \<or> lb = 1 \<longrightarrow>
      analyze_combined_performance df tk d lb aw nb = Inr Empty_DataFrame)
   \<and> (2 \<le> length (trailing df tk d lb) \<and> nb \<le> - 2 \<longrightarrow>
      analyze_combined_performance df tk d lb aw nb = Inl ValueError_samples_negative)
   \<and> (2 \<le> length (trailing df tk d lb) \<and> 1 \<le> nb
       \<and> min_close (trailing df tk d lb) < max_close (trailing df tk d lb) \<and> aw = 0 \<longrightarrow>
      (\<exists>cells. analyze_combined_performance df tk d lb aw nb = Inr (Stats cells)
         \<and> length cells = 3 * nat nb
         \<and> (\<forall>c\<in>set cells. count c = 0 \<and> mean c = None)))"
proof (intro conjI impI)
  assume "lb = 0 \<or> lb = 1"
  then have "length (tail lb (ticker_group df tk d)) < 2" by (rule length_tail_small)
  then show "analyze_combined_performance df tk d lb aw nb = Inr Empty_DataFrame"
    by (simp add: analyze_combined_performance_def Let_def)
next
  assume a: "2 \<le> length (trailing df tk d lb) \<and> nb \<le> - 2"
  then have g: "ticker_group df tk d \<noteq> []"
    by (auto simp: trailing_def tail_def split: if_splits)
  have "linspace lo hi (nb + 1) = Inl ValueError_samples_negative" for lo hi
    using a by (simp add: linspace_def)
  then show "analyze_combined_performance df tk d lb aw nb = Inl ValueError_samples_negative"
    using a g by (simp add: analyze_combined_performance_def Let_def trailing_def [symmetric])
next
  assume a: "2 \<le> length (trailing df tk d lb) \<and> 1 \<le> nb
       \<and> min_close (trailing df tk d lb) < max_close (trailing df tk d lb) \<and> aw = 0"
  let ?E = "interpolated_edges (min_close (trailing df tk d lb))
              (max_close (trailing df tk d lb)) (nat nb)"
  have st: "analyze_combined_performance df tk d lb aw nb =
      Inr (Stats (agg (stats_rows (trailing df tk d aw) ?E) ?E tk))"
    using a by (intro analyze_stats) auto
  have "trailing df tk d aw = []" using a by (simp add: trailing_def tail_def)
  then have e: "stats_rows (trailing df tk d aw) ?E = []" by (simp add: stats_rows_Nil)
  have "length (agg [] ?E tk) = 3 * nat nb"
    by (simp add: length_agg length_interpolated_edges)
  then show "\<exists>cells. analyze_combined_performance df tk d lb aw nb = Inr (Stats cells)
         \<and> length cells = 3 * nat nb
         \<and> (\<forall>c\<in>set cells. count c = 0 \<and> mean c = None)"
    using st e agg_Nil_cell [of _ ?E tk] by auto
qed

theorem parameters_not_validated_witness:
  "analyze_combined_performance scenario_df ''X'' 4 1 200 10 = Inr Empty_DataFrame
   \<and> analyze_combined_performance scenario_df ''X'' 4 200 100 (- 2) = Inl ValueError_samples_negative
   \<and> (\<exists>cells. analyze_combined_performance scenario_df ''X'' 4 200 0 10 = Inr (Stats cells)
         \<and> length cells = 3 * nat 10
         \<and> (\<forall>c\<in>set cells. count c = 0 \<and> mean c = None))"
proof -
  have h: "2 \<le> length (trailing scenario_df ''X'' 4 200)" by code_simp
  have m: "min_close (trailing scenario_df ''X'' 4 200) < max_close (trailing scenario_df ''X'' 4 200)"
    by code_simp
  show ?thesis
    using h m parameters_not_validated [of 1 scenario_df "''X''" 4 200 10]
      parameters_not_validated [of 200 scenario_df "''X''" 4 100 "- 2"]
      parameters_not_validated [of 200 scenario_df "''X''" 4 0 10]
    by simp
qed

subsection \<open>C5: conservation of the counts\<close>

text \<open>
  C5, as stated, equates the sum of the counts with the number of observations of the
  analysis window, the last excluded, whose sentiment is defined. When the analysis
  window is longer than the lookback window a close can lie outside the edges; such a
  row gets no price bracket and is counted nowhere. On three days with closes 1, 5, 6,
  a lookback window of 2 and an analysis window of 3, two rows qualify and the counts
  sum to 1.
\<close>

theorem count_conservation_counterexample:
  "analyze_combined_performance wide_df ''X'' 2 2 3 1 =
     Inr (Stats
       [\<lparr>price_bracket = 0, price_low = 5, price_high = 6, fg_bracket = Fear,
          mean = None, count = 0, cell_ticker = ''X''\<rparr>,
        \<lparr>price_bracket = 0, price_low = 5, price_high = 6, fg_bracket = Neutral,
          mean = Some 1, count = 1, cell_ticker = ''X''\<rparr>,
        \<lparr>price_bracket = 0, price_low = 5, price_high = 6, fg_bracket = Greed,
          mean = None, count = 0, cell_ticker = ''X''\<rparr>])
   \<and> length (filter (\<lambda>r. Fear_Greed r \<noteq> None) (butlast (trailing wide_df ''X'' 2 3))) = 2"
  by code_simp

text \<open>
  C5, amended: when the call computes a grid (at least 2 rows in the lookback window,
  at least one bracket, a range that is not flat or a single bracket) and the sentiment
  scores are absent or within \<open>[0, 100]\<close>, the sum of the counts is the number of rows
  of the analysis window, the last excluded, whose sentiment is defined and whose close
  lies within \<open>[min_close, max_close]\<close> of the lookback window. When the analysis window
  is positive and no longer than the lookback window this is the number of rows, the
  last excluded, whose sentiment is defined. The sum is at most the number of rows of
  the analysis window without the last: as integers, at most the length of the analysis
  window minus 1 whenever that window holds a row, and 0 when it holds none.
\<close>

theorem count_conservation:
  assumes "2 \<le> length (trailing df tk d lb)" and "1 \<le> nb"
    and "min_close (trailing df tk d lb) < max_close (trailing df tk d lb) \<or> nb = 1"
    and "\<forall>r\<in>set (trailing df tk d aw). sentiment_in_range r"
  shows "\<exists>cells. analyze_combined_performance df tk d lb aw nb = Inr (Stats cells)
     \<and> sum_list (map count cells) =
         length (filter (\<lambda>r. Fear_Greed r \<noteq> None
                     \<and> min_close (trailing df tk d lb) \<le> close r
                     \<and> close r \<le> max_close (trailing df tk d lb))
                   (butlast (trailing df tk d aw)))
     \<and> (0 < aw \<and> aw \<le> lb \<longrightarrow>
          sum_list (map count cells) =
            length (filter (\<lambda>r. Fear_Greed r \<noteq> None) (butlast (trailing df tk d aw))))
     \<and> sum_list (map count cells) \<le> length (butlast (trailing df tk d aw))
     \<and> (trailing df tk d aw \<noteq> [] \<longrightarrow>
          int (sum_list (map count cells)) \<le> int (length (trailing df tk d aw)) - 1)
     \<and> (trailing df tk d aw = [] \<longrightarrow> sum_list (map count cells) = 0)"
proof -
  let ?S = "trailing df tk d lb"
  let ?sub = "trailing df tk d aw"
  let ?lo = "min_close ?S" and ?hi = "max_close ?S"
  let ?E = "interpolated_edges ?lo ?hi (nat nb)"
  let ?cells = "agg (stats_rows ?sub ?E) ?E tk"
  let ?P = "\<lambda>r. Fear_Greed r \<noteq> None \<and> ?lo \<le> close r \<and> close r \<le> ?hi"
  have st: "analyze_combined_performance df tk d lb aw nb = Inr (Stats ?cells)"
    by (rule analyze_stats [OF assms(1-3)])
  have ne: "?S \<noteq> []" using assms(1) by auto
  have le: "?lo \<le> ?hi" by (rule min_close_le_max_close [OF ne])
  have n1: "1 \<le> nat nb" using assms(2) by simp
  have "sum_list (map count ?cells) =
      length (filter (\<lambda>r. (\<exists>k<nat nb. cut_id ?E (Some (close r)) = Some k)
                          \<and> cut_id fg_bins (Fear_Greed r) \<noteq> None) (butlast ?sub))"
    by (simp add: sum_count_agg count_stats_rows length_interpolated_edges)
  also have "\<dots> = length (filter ?P (butlast ?sub))"
  proof (rule arg_cong [where f = length], rule filter_cong [OF refl])
    fix r assume "r \<in> set (butlast ?sub)"
    then have "r \<in> set ?sub" by (rule in_set_butlastD)
    then have "sentiment_in_range r" using assms(4) by blast
    then show "((\<exists>k<nat nb. cut_id ?E (Some (close r)) = Some k)
                  \<and> cut_id fg_bins (Fear_Greed r) \<noteq> None) = ?P r"
      using edges_bracket_defined_iff [OF n1 le, of "close r"] fg_bracket_defined_iff [of r]
      by blast
  qed
  finally have total: "sum_list (map count ?cells) = length (filter ?P (butlast ?sub))" .
  have same: "length (filter ?P (butlast ?sub)) =
      length (filter (\<lambda>r. Fear_Greed r \<noteq> None) (butlast ?sub))" if "0 < aw \<and> aw \<le> lb"
  proof (rule arg_cong [where f = length], rule filter_cong [OF refl])
    fix r assume "r \<in> set (butlast ?sub)"
    then have "r \<in> set ?sub" by (rule in_set_butlastD)
    then show "?P r = (Fear_Greed r \<noteq> None)"
      using trailing_in_range [of aw lb r df tk d] that by blast
  qed
  have "length (filter ?P (butlast ?sub)) \<le> length (butlast ?sub)" by (rule length_filter_le)
  then have bound: "sum_list (map count ?cells) \<le> length (butlast ?sub)" using total by simp
  have ibound: "int (sum_list (map count ?cells)) \<le> int (length ?sub) - 1" if "?sub \<noteq> []"
  proof -
    have "1 \<le> length ?sub" using that by (simp add: Suc_leI)
    then show ?thesis using bound by simp
  qed
  have zero: "sum_list (map count ?cells) = 0" if "?sub = []"
    using bound that by simp
  show ?thesis
    apply (rule exI [of _ ?cells])
    apply (intro conjI)
    subgoal by (rule st)
    subgoal by (rule total)
    subgoal using total same by simp
    subgoal by (rule bound)
    subgoal using ibound by blast
    subgoal using zero by blast
    done
qed

theorem count_conservation_witness:
  "(\<exists>cells. analyze_combined_performance scenario_df ''X'' 4 5 5 2 = Inr (Stats cells)
      \<and> sum_list (map count cells) = 4
      \<and> int (sum_list (map count cells)) \<le> int (length (trailing scenario_df ''X'' 4 5)) - 1)
   \<and> (\<exists>cells. analyze_combined_performance wide_df ''X'' 2 2 3 1 = Inr (Stats cells)
      \<and> sum_list (map count cells) = 1)
   \<and> (\<exists>cells. analyze_combined_performance scenario_df ''X'' 4 5 0 2 = Inr (Stats cells)
      \<and> sum_list (map count cells) = 0)"
proof -
  have a1: "2 \<le> length (trailing scenario_df ''X'' 4 5)" by code_simp
  have a3: "min_close (trailing scenario_df ''X'' 4 5) < max_close (trailing scenario_df ''X'' 4 5)
      \<or> (2::int) = 1" by code_simp
  have a4: "\<forall>r\<in>set (trailing scenario_df ''X'' 4 5). sentiment_in_range r" by code_simp
  have a5: "length (filter (\<lambda>r. Fear_Greed r \<noteq> None) (butlast (trailing scenario_df ''X'' 4 5))) = 4"
    by code_simp
  have a6: "trailing scenario_df ''X'' 4 5 \<noteq> []" by code_simp
  have b1: "2 \<le> length (trailing wide_df ''X'' 2 2)" by code_simp
  have b3: "min_close (trailing wide_df ''X'' 2 2) < max_close (trailing wide_df ''X'' 2 2)
      \<or> (1::int) = 1" by simp
  have b4: "\<forall>r\<in>set (trailing wide_df ''X'' 2 3). sentiment_in_range r" by code_simp
  have b5: "length (filter (\<lambda>r. Fear_Greed r \<noteq> None
                     \<and> min_close (trailing wide_df ''X'' 2 2) \<le> close r
                     \<and> close r \<le> max_close (trailing wide_df ''X'' 2 2))
                   (butlast (trailing wide_df ''X'' 2 3))) = 1"
    by code_simp
  have c4: "\<forall>r\<in>set (trailing scenario_df ''X'' 4 0). sentiment_in_range r" by code_simp
  have c5: "trailing scenario_df ''X'' 4 0 = []" by code_simp
  have A: "\<exists>cells. analyze_combined_performance scenario_df ''X'' 4 5 5 2 = Inr (Stats cells)
      \<and> sum_list (map count cells) = 4
      \<and> int (sum_list (map count cells)) \<le> int (length (trailing scenario_df ''X'' 4 5)) - 1"
    using count_conservation [OF a1 _ a3 a4] a5 a6 by auto
  have B: "\<exists>cells. analyze_combined_performance wide_df ''X'' 2 2 3 1 = Inr (Stats cells)
      \<and> sum_list (map count cells) = 1"
    using count_conservation [OF b1 _ b3 b4] b5 by auto
  have C: "\<exists>cells. analyze_combined_performance scenario_df ''X'' 4 5 0 2 = Inr (Stats cells)
      \<and> sum_list (map count cells) = 0"
    using count_conservation [OF a1 _ a3 c4] c5 by auto
  show ?thesis using A B C by blast
qed

subsection \<open>C6: the full cross product\<close>

text \<open>
  C6, as stated, promises the \<open>num_brackets * 3\<close> cells for every valid input. Three
  days with the same close, valid windows and 3 brackets are such an input, and the call
  returns no grid: it raises the ValueError of \<^verbatim>\<open>pd.cut\<close>.
\<close>

theorem flat_range_no_grid_counterexample:
  "2 \<le> length (trailing flat_df ''X'' 2 5)
   \<and> analyze_combined_performance flat_df ''X'' 2 5 5 3 = Inl ValueError_bin_edges_not_unique"
  by code_simp

text \<open>
  C6, amended: whenever the lookback window holds at least 2 rows, there is at least one
  bracket, and the range of the lookback closes is not flat (or there is a single
  bracket), the call returns a grid with exactly \<open>num_brackets * 3\<close> cells, one for each
  pair of a price bracket and a sentiment bracket in order; a cell has count 0 exactly
  when its mean is undefined (\<open>None\<close>, which is not the mean \<open>Some 0\<close>); and when every
  sentiment of the analysis window is missing, every cell is there with count 0 and no
  mean.
\<close>

theorem full_cross_product:
  assumes "2 \<le> length (trailing df tk d lb)" and "1 \<le> nb"
    and "min_close (trailing df tk d lb) < max_close (trailing df tk d lb) \<or> nb = 1"
  shows "\<exists>cells. analyze_combined_performance df tk d lb aw nb = Inr (Stats cells)
     \<and> length cells = nat nb * 3
     \<and> map (\<lambda>c. (price_bracket c, fg_bracket c)) cells
         = List.product [0..<nat nb] [Fear, Neutral, Greed]
     \<and> (\<forall>c\<in>set cells. (count c = 0) = (mean c = None))
     \<and> ((\<forall>r\<in>set (trailing df tk d aw). Fear_Greed r = None) \<longrightarrow>
          (\<forall>c\<in>set cells. count c = 0 \<and> mean c = None))"
proof -
  let ?E = "interpolated_edges (min_close (trailing df tk d lb))
              (max_close (trailing df tk d lb)) (nat nb)"
  let ?cells = "agg (stats_rows (trailing df tk d aw) ?E) ?E tk"
  have st: "analyze_combined_performance df tk d lb aw nb = Inr (Stats ?cells)"
    by (rule analyze_stats [OF assms])
  have len: "length ?cells = nat nb * 3"
    by (simp add: length_agg length_interpolated_edges)
  have keys: "map (\<lambda>c. (price_bracket c, fg_bracket c)) ?cells
      = List.product [0..<nat nb] [Fear, Neutral, Greed]"
    using agg_keys [of "stats_rows (trailing df tk d aw) ?E" ?E tk]
    by (simp add: length_interpolated_edges fg_labels_def)
  have undef: "\<forall>c\<in>set ?cells. (count c = 0) = (mean c = None)"
    using agg_mean_undefined_iff by blast
  have empty: "(\<forall>r\<in>set (trailing df tk d aw). Fear_Greed r = None) \<longrightarrow>
      (\<forall>c\<in>set ?cells. count c = 0 \<and> mean c = None)"
    using agg_no_sentiment [of "trailing df tk d aw" _ ?E ?E tk] by blast
  show ?thesis using st len keys undef empty by blast
qed

theorem full_cross_product_witness:
  "(\<exists>cells. analyze_combined_performance scenario_df ''X'' 4 200 100 10 = Inr (Stats cells)
      \<and> length cells = nat 10 * 3
      \<and> map (\<lambda>c. (price_bracket c, fg_bracket c)) cells
          = List.product [0..<nat 10] [Fear, Neutral, Greed])
   \<and> (\<exists>cells. analyze_combined_performance no_sentiment_df ''X'' 2 200 100 10 = Inr (Stats cells)
      \<and> length cells = nat 10 * 3
      \<and> (\<forall>c\<in>set cells. count c = 0 \<and> mean c = None))"
proof -
  have a1: "2 \<le> length (trailing scenario_df ''X'' 4 200)" by code_simp
  have a3: "min_close (trailing scenario_df ''X'' 4 200) < max_close (trailing scenario_df ''X'' 4 200)
      \<or> (10::int) = 1" by code_simp
  have b1: "2 \<le> length (trailing no_sentiment_df ''X'' 2 200)" by code_simp
  have b3: "min_close (trailing no_sentiment_df ''X'' 2 200)
      < max_close (trailing no_sentiment_df ''X'' 2 200) \<or> (10::int) = 1" by code_simp
  have b4: "\<forall>r\<in>set (trailing no_sentiment_df ''X'' 2 100). Fear_Greed r = None" by code_simp
  have A: "\<exists>cells. analyze_combined_performance scenario_df ''X'' 4 200 100 10 = Inr (Stats cells)
      \<and> length cells = nat 10 * 3
      \<and> map (\<lambda>c. (price_bracket c, fg_bracket c)) cells
          = List.product [0..<nat 10] [Fear, Neutral, Greed]"
    using full_cross_product [OF a1 _ a3, of 100] by auto
  have B: "\<exists>cells. analyze_combined_performance no_sentiment_df ''X'' 2 200 100 10 = Inr (Stats cells)
      \<and> length cells = nat 10 * 3
      \<and> (\<forall>c\<in>set cells. count c = 0 \<and> mean c = None)"
    using full_cross_product [OF b1 _ b3, of 100] b4 by auto
  show ?thesis using A B by (rule conjI)
qed

subsection \<open>C7: the price brackets\<close>




subsection \<open>C8: the sentiment brackets\<close>

text \<open>
  C8: the call of \<^verbatim>\<open>pd.cut\<close> on the scores of the analysis window never raises and
  gives each row the bracket the specification names: Fear exactly on \<open>[0, 33.33]\<close>,
  Neutral exactly on \<open>(33.33, 66.67]\<close>, Greed exactly on \<open>(66.67, 100]\<close>, and none
  for a missing score. Whenever the call returns a grid, the count of each cell is the
  number of rows of the analysis window, the last excluded, whose close lies in the
  price bracket of the cell and whose score lies in its sentiment bracket; and a row
  whose score is missing can be taken away from the keyed rows without changing the
  grid, so it is in no cell.
\<close>

theorem sentiment_brackets:
  "(\<exists>fb. cut (map Fear_Greed (trailing df tk d aw)) fg_bins = Inr fb
       \<and> map (map_option ((!) fg_labels)) fb
           = map (spec_sentiment \<circ> Fear_Greed) (trailing df tk d aw))
   \<and> map_option ((!) fg_labels) (cut_id fg_bins None) = None
   \<and> (map_option ((!) fg_labels) (cut_id fg_bins (Some s)) = Some Fear)
       = (0 \<le> s \<and> s \<le> 3333 / 100)
   \<and> (map_option ((!) fg_labels) (cut_id fg_bins (Some s)) = Some Neutral)
       = (3333 / 100 < s \<and> s \<le> 6667 / 100)
   \<and> (map_option ((!) fg_labels) (cut_id fg_bins (Some s)) = Some Greed)
       = (6667 / 100 < s \<and> s \<le> 100)
   \<and> (analyze_combined_performance df tk d lb aw nb = Inr (Stats cells) \<longrightarrow>
        (\<exists>p_bins.
           linspace (min_close (trailing df tk d lb)) (max_close (trailing df tk d lb)) (nb + 1)
             = Inr p_bins
           \<and> (\<forall>c\<in>set cells.
                count c = length (spec_cell_gains p_bins (trailing df tk d aw)
                            (price_bracket c) (fg_bracket c)))
           \<and> (\<forall>i<length (trailing df tk d aw).
                Fear_Greed (trailing df tk d aw ! i) = None \<longrightarrow>
                cells = agg (take i (stats_rows (trailing df tk d aw) p_bins)
                             @ drop (Suc i) (stats_rows (trailing df tk d aw) p_bins))
                          p_bins tk)))"
proof (intro conjI impI)
  show "\<exists>fb. cut (map Fear_Greed (trailing df tk d aw)) fg_bins = Inr fb
       \<and> map (map_option ((!) fg_labels)) fb
           = map (spec_sentiment \<circ> Fear_Greed) (trailing df tk d aw)"
    by (rule cut_fg_labels)
  show "map_option ((!) fg_labels) (cut_id fg_bins None) = None"
    by (simp add: cut_id_None)
  show "(map_option ((!) fg_labels) (cut_id fg_bins (Some s)) = Some Fear)
       = (0 \<le> s \<and> s \<le> 3333 / 100)"
    unfolding fg_label_spec by (rule spec_sentiment_ranges)
  show "(map_option ((!) fg_labels) (cut_id fg_bins (Some s)) = Some Neutral)
       = (3333 / 100 < s \<and> s \<le> 6667 / 100)"
    unfolding fg_label_spec by (rule spec_sentiment_ranges)
  show "(map_option ((!) fg_labels) (cut_id fg_bins (Some s)) = Some Greed)
       = (6667 / 100 < s \<and> s \<le> 100)"
    unfolding fg_label_spec by (rule spec_sentiment_ranges)
next
  let ?sub = "trailing df tk d aw"
  assume "analyze_combined_performance df tk d lb aw nb = Inr (Stats cells)"
  from analyze_spec_cells [OF this] obtain p_bins where p:
    "linspace (min_close (trailing df tk d lb)) (max_close (trailing df tk d lb)) (nb + 1)
       = Inr p_bins"
    "cells = agg (stats_rows ?sub p_bins) p_bins tk"
    "\<forall>c\<in>set cells. count c = length (spec_cell_gains p_bins ?sub (price_bracket c) (fg_bracket c))"
    by blast
  have drop: "\<forall>i<length ?sub. Fear_Greed (?sub ! i) = None \<longrightarrow>
      cells = agg (take i (stats_rows ?sub p_bins) @ drop (Suc i) (stats_rows ?sub p_bins)) p_bins tk"
  proof (intro allI impI)
    fix i assume i: "i < length ?sub" and n: "Fear_Greed (?sub ! i) = None"
    have il: "i < length (stats_rows ?sub p_bins)" using i by (simp add: length_stats_rows)
    have "snd (snd (stats_rows ?sub p_bins ! i)) = None"
      using i n by (simp add: nth_stats_rows cut_id_None)
    then have dd: "fst (stats_rows ?sub p_bins ! i) = None
       \<or> fst (snd (stats_rows ?sub p_bins ! i)) = None
       \<or> snd (snd (stats_rows ?sub p_bins ! i)) = None" by blast
    show "cells = agg (take i (stats_rows ?sub p_bins) @ drop (Suc i) (stats_rows ?sub p_bins)) p_bins tk"
      using p(2) agg_drop_row [OF il dd, of p_bins tk] by simp
  qed
  show "\<exists>p_bins.
           linspace (min_close (trailing df tk d lb)) (max_close (trailing df tk d lb)) (nb + 1)
             = Inr p_bins
           \<and> (\<forall>c\<in>set cells.
                count c = length (spec_cell_gains p_bins ?sub (price_bracket c) (fg_bracket c)))
           \<and> (\<forall>i<length ?sub.
                Fear_Greed (?sub ! i) = None \<longrightarrow>
                cells = agg (take i (stats_rows ?sub p_bins)
                             @ drop (Suc i) (stats_rows ?sub p_bins))
                          p_bins tk)"
    using p(1,3) drop by blast
qed

theorem sentiment_brackets_witness:
  "map_option ((!) fg_labels) (cut_id fg_bins (Some 0)) = Some Fear
   \<and> map_option ((!) fg_labels) (cut_id fg_bins (Some (3333 / 100))) = Some Fear
   \<and> map_option ((!) fg_labels) (cut_id fg_bins (Some 60)) = Some Neutral
   \<and> map_option ((!) fg_labels) (cut_id fg_bins (Some 100)) = Some Greed
   \<and> (\<exists>cells p_bins.
        analyze_combined_performance scenario_df ''X'' 4 5 5 2 = Inr (Stats cells)
        \<and> linspace (min_close (trailing scenario_df ''X'' 4 5))
             (max_close (trailing scenario_df ''X'' 4 5)) (2 + 1) = Inr p_bins
        \<and> map count cells = [1, 1, 0, 0, 1, 1]
        \<and> (\<forall>c\<in>set cells.
             count c = length (spec_cell_gains p_bins (trailing scenario_df ''X'' 4 5)
                         (price_bracket c) (fg_bracket c)))
        \<and> cells = agg (take 4 (stats_rows (trailing scenario_df ''X'' 4 5) p_bins)
                        @ drop (Suc 4) (stats_rows (trailing scenario_df ''X'' 4 5) p_bins))
                     p_bins ''X'')"
proof -
  let ?X = "agg (stats_rows (trailing scenario_df ''X'' 4 5)
                (interpolated_edges (min_close (trailing scenario_df ''X'' 4 5))
                   (max_close (trailing scenario_df ''X'' 4 5)) (nat 2)))
              (interpolated_edges (min_close (trailing scenario_df ''X'' 4 5))
                 (max_close (trailing scenario_df ''X'' 4 5)) (nat 2)) ''X''"
  have a1: "2 \<le> length (trailing scenario_df ''X'' 4 5)" by code_simp
  have a2: "1 \<le> (2::int)" by simp
  have a3: "min_close (trailing scenario_df ''X'' 4 5) < max_close (trailing scenario_df ''X'' 4 5)
      \<or> (2::int) = 1" by code_simp
  have e: "analyze_combined_performance scenario_df ''X'' 4 5 5 2 = Inr (Stats ?X)"
    by (rule analyze_stats [OF a1 a2 a3])
  have mx: "map count ?X = [1, 1, 0, 0, 1, 1]" by code_simp
  have i: "4 < length (trailing scenario_df ''X'' 4 5)
      \<and> Fear_Greed (trailing scenario_df ''X'' 4 5 ! 4) = None" by code_simp
  note t = sentiment_brackets [of scenario_df "''X''" 4 5 _ 5 2 ?X]
  have L: "map_option ((!) fg_labels) (cut_id fg_bins (Some 0)) = Some Fear
   \<and> map_option ((!) fg_labels) (cut_id fg_bins (Some (3333 / 100))) = Some Fear
   \<and> map_option ((!) fg_labels) (cut_id fg_bins (Some 60)) = Some Neutral
   \<and> map_option ((!) fg_labels) (cut_id fg_bins (Some 100)) = Some Greed"
    using t [of 0] t [of "3333 / 100"] t [of 60] t [of 100] by simp
  from t [of 0] e obtain p_bins where p:
    "linspace (min_close (trailing scenario_df ''X'' 4 5))
         (max_close (trailing scenario_df ''X'' 4 5)) (2 + 1) = Inr p_bins"
    "\<forall>c\<in>set ?X. count c = length (spec_cell_gains p_bins (trailing scenario_df ''X'' 4 5)
                         (price_bracket c) (fg_bracket c))"
    "\<forall>i<length (trailing scenario_df ''X'' 4 5).
        Fear_Greed (trailing scenario_df ''X'' 4 5 ! i) = None \<longrightarrow>
        ?X = agg (take i (stats_rows (trailing scenario_df ''X'' 4 5) p_bins)
                  @ drop (Suc i) (stats_rows (trailing scenario_df ''X'' 4 5) p_bins))
               p_bins ''X''"
    by blast
  have d: "?X = agg (take 4 (stats_rows (trailing scenario_df ''X'' 4 5) p_bins)
                  @ drop (Suc 4) (stats_rows (trailing scenario_df ''X'' 4 5) p_bins))
               p_bins ''X''"
    using p(3) i by blast
  have G: "\<exists>cells p_bins.
        analyze_combined_performance scenario_df ''X'' 4 5 5 2 = Inr (Stats cells)
        \<and> linspace (min_close (trailing scenario_df ''X'' 4 5))
             (max_close (trailing scenario_df ''X'' 4 5)) (2 + 1) = Inr p_bins
        \<and> map count cells = [1, 1, 0, 0, 1, 1]
        \<and> (\<forall>c\<in>set cells.
             count c = length (spec_cell_gains p_bins (trailing scenario_df ''X'' 4 5)
                         (price_bracket c) (fg_bracket c)))
        \<and> cells = agg (take 4 (stats_rows (trailing scenario_df ''X'' 4 5) p_bins)
                        @ drop (Suc 4) (stats_rows (trailing scenario_df ''X'' 4 5) p_bins))
                     p_bins ''X''"
    apply (rule exI [of _ ?X], rule exI [of _ p_bins])
    apply (intro conjI)
    subgoal by (rule e)
    subgoal by (rule p(1))
    subgoal by (rule mx)
    subgoal by (rule p(2))
    subgoal by (rule d)
    done
  show ?thesis using L G by (simp only: simp_thms)
qed

subsection \<open>C9: the next-day gain\<close>

text \<open>
  C9: the gain of every row but the last is the close of the next row minus its own
  close, an absolute difference, and the last row has no gain. Whenever the call returns
  a grid, the count of each cell is the number of these gains that belong to the cell
  and its mean is their sum divided by their number (undefined for an empty cell), where
  the gains are those of the rows of the analysis window except the last; and the grid is
  the grid of the keyed rows without the last row.
\<close>

theorem next_day_gain_forward_difference:
  "length (next_day_gain s) = length s
   \<and> (Suc i < length s \<longrightarrow> next_day_gain s ! i = Some (s ! Suc i - s ! i))
   \<and> (s \<noteq> [] \<longrightarrow> next_day_gain s ! (length s - 1) = None)
   \<and> map fst (with_next_day_gain sub) = butlast sub
   \<and> map (Some \<circ> snd) (with_next_day_gain sub) = butlast (next_day_gain (map close sub))
   \<and> (analyze_combined_performance df tk d lb aw nb = Inr (Stats cells) \<longrightarrow>
        (\<exists>p_bins.
           linspace (min_close (trailing df tk d lb)) (max_close (trailing df tk d lb)) (nb + 1)
             = Inr p_bins
           \<and> (\<forall>c\<in>set cells.
                count c = length (spec_cell_gains p_bins (trailing df tk d aw)
                            (price_bracket c) (fg_bracket c))
                \<and> mean c = (if count c = 0 then None
                     else Some (sum_list (spec_cell_gains p_bins (trailing df tk d aw)
                                  (price_bracket c) (fg_bracket c)) / real (count c))))
           \<and> cells = agg (butlast (stats_rows (trailing df tk d aw) p_bins)) p_bins tk))"
proof (intro conjI impI)
  show "length (next_day_gain s) = length s" by (rule length_next_day_gain)
  show "next_day_gain s ! i = Some (s ! Suc i - s ! i)" if "Suc i < length s"
    using that by (rule nth_next_day_gain)
  show "next_day_gain s ! (length s - 1) = None" if "s \<noteq> []"
    using that by (rule last_gain_undefined)
  show "map fst (with_next_day_gain sub) = butlast sub" by (rule with_next_day_gain_rows)
  show "map (Some \<circ> snd) (with_next_day_gain sub) = butlast (next_day_gain (map close sub))"
    by (rule with_next_day_gain_gains)
next
  assume "analyze_combined_performance df tk d lb aw nb = Inr (Stats cells)"
  from analyze_spec_cells [OF this] obtain p_bins where p:
    "linspace (min_close (trailing df tk d lb)) (max_close (trailing df tk d lb)) (nb + 1)
       = Inr p_bins"
    "cells = agg (stats_rows (trailing df tk d aw) p_bins) p_bins tk"
    "\<forall>c\<in>set cells.
          count c = length (spec_cell_gains p_bins (trailing df tk d aw)
                      (price_bracket c) (fg_bracket c))
          \<and> mean c = (if count c = 0 then None
               else Some (sum_list (spec_cell_gains p_bins (trailing df tk d aw)
                            (price_bracket c) (fg_bracket c)) / real (count c)))"
    by blast
  have b: "cells = agg (butlast (stats_rows (trailing df tk d aw) p_bins)) p_bins tk"
    using p(2) stats_rows_butlast [of "trailing df tk d aw" p_bins p_bins tk] by simp
  show "\<exists>p_bins.
           linspace (min_close (trailing df tk d lb)) (max_close (trailing df tk d lb)) (nb + 1)
             = Inr p_bins
           \<and> (\<forall>c\<in>set cells.
                count c = length (spec_cell_gains p_bins (trailing df tk d aw)
                            (price_bracket c) (fg_bracket c))
                \<and> mean c = (if count c = 0 then None
                     else Some (sum_list (spec_cell_gains p_bins (trailing df tk d aw)
                                  (price_bracket c) (fg_bracket c)) / real (count c))))
           \<and> cells = agg (butlast (stats_rows (trailing df tk d aw) p_bins)) p_bins tk"
    using p(1,3) b by blast
qed

theorem next_day_gain_forward_difference_witness:
  "next_day_gain [100, 102, 98, 101, 103] ! 1 = Some (98 - 102)
   \<and> next_day_gain [100, 102, 98, 101, 103] ! 4 = None
   \<and> length (next_day_gain [100, 102, 98, 101, 103]) = 5
   \<and> (\<exists>cells p_bins.
        analyze_combined_performance scenario_df ''X'' 4 5 5 2 = Inr (Stats cells)
        \<and> linspace (min_close (trailing scenario_df ''X'' 4 5))
             (max_close (trailing scenario_df ''X'' 4 5)) (2 + 1) = Inr p_bins
        \<and> map count cells = [1, 1, 0, 0, 1, 1]
        \<and> map mean cells = [Some 2, Some 3, None, None, Some (- 4), Some 2]
        \<and> (\<forall>c\<in>set cells.
             count c = length (spec_cell_gains p_bins (trailing scenario_df ''X'' 4 5)
                         (price_bracket c) (fg_bracket c))
             \<and> mean c = (if count c = 0 then None
                  else Some (sum_list (spec_cell_gains p_bins (trailing scenario_df ''X'' 4 5)
                               (price_bracket c) (fg_bracket c)) / real (count c))))
        \<and> cells = agg (butlast (stats_rows (trailing scenario_df ''X'' 4 5) p_bins)) p_bins ''X'')"
proof -
  let ?X = "agg (stats_rows (trailing scenario_df ''X'' 4 5)
                (interpolated_edges (min_close (trailing scenario_df ''X'' 4 5))
                   (max_close (trailing scenario_df ''X'' 4 5)) (nat 2)))
              (interpolated_edges (min_close (trailing scenario_df ''X'' 4 5))
                 (max_close (trailing scenario_df ''X'' 4 5)) (nat 2)) ''X''"
  have a1: "2 \<le> length (trailing scenario_df ''X'' 4 5)" by code_simp
  have a2: "1 \<le> (2::int)" by simp
  have a3: "min_close (trailing scenario_df ''X'' 4 5) < max_close (trailing scenario_df ''X'' 4 5)
      \<or> (2::int) = 1" by code_simp
  have e: "analyze_combined_performance scenario_df ''X'' 4 5 5 2 = Inr (Stats ?X)"
    by (rule analyze_stats [OF a1 a2 a3])
  have mx: "map count ?X = [1, 1, 0, 0, 1, 1]" by code_simp
  have mm: "map mean ?X = [Some 2, Some 3, None, None, Some (- 4), Some 2]" by code_simp
  note t = next_day_gain_forward_difference
    [of "[100, 102, 98, 101, 103]" 1 _ scenario_df "''X''" 4 5 5 2 ?X]
  have L: "next_day_gain [100, 102, 98, 101, 103] ! 1 = Some (98 - 102)
   \<and> next_day_gain [100, 102, 98, 101, 103] ! 4 = None
   \<and> length (next_day_gain [100, 102, 98, 101, 103]) = 5"
    using t [of "[]"] by (simp add: eval_nat_numeral)
  from t [of "[]"] e obtain p_bins where p:
    "linspace (min_close (trailing scenario_df ''X'' 4 5))
         (max_close (trailing scenario_df ''X'' 4 5)) (2 + 1) = Inr p_bins"
    "\<forall>c\<in>set ?X.
         count c = length (spec_cell_gains p_bins (trailing scenario_df ''X'' 4 5)
                     (price_bracket c) (fg_bracket c))
         \<and> mean c = (if count c = 0 then None
              else Some (sum_list (spec_cell_gains p_bins (trailing scenario_df ''X'' 4 5)
                           (price_bracket c) (fg_bracket c)) / real (count c)))"
    "?X = agg (butlast (stats_rows (trailing scenario_df ''X'' 4 5) p_bins)) p_bins ''X''"
    by blast
  have G: "\<exists>cells p_bins.
        analyze_combined_performance scenario_df ''X'' 4 5 5 2 = Inr (Stats cells)
        \<and> linspace (min_close (trailing scenario_df ''X'' 4 5))
             (max_close (trailing scenario_df ''X'' 4 5)) (2 + 1) = Inr p_bins
        \<and> map count cells = [1, 1, 0, 0, 1, 1]
        \<and> map mean cells = [Some 2, Some 3, None, None, Some (- 4), Some 2]
        \<and> (\<forall>c\<in>set cells.
             count c = length (spec_cell_gains p_bins (trailing scenario_df ''X'' 4 5)
                         (price_bracket c) (fg_bracket c))
             \<and> mean c = (if count c = 0 then None
                  else Some (sum_list (spec_cell_gains p_bins (trailing scenario_df ''X'' 4 5)
                               (price_bracket c) (fg_bracket c)) / real (count c))))
        \<and> cells = agg (butlast (stats_rows (trailing scenario_df ''X'' 4 5) p_bins)) p_bins ''X''"
    apply (rule exI [of _ ?X], rule exI [of _ p_bins])
    apply (intro conjI)
    subgoal by (rule e)
    subgoal by (rule p(1))
    subgoal by (rule mx)
    subgoal by (rule mm)
    subgoal by (rule p(2))
    subgoal by (rule p(3))
    done
  show ?thesis using L G by (simp only: simp_thms)
qed

subsection \<open>C10: closes outside the lookback range\<close>

text \<open>
  C10: a row of the analysis window whose close lies strictly below \<open>min_close\<close> or
  strictly above \<open>max_close\<close> of the lookback window gets no price bracket (it is not
  moved into the first or the last one); taking its keyed row away changes no group, and
  the grid the call returns is the grid of the remaining keyed rows.
\<close>

theorem out_of_range_dropped:
  assumes "2 \<le> length (trailing df tk d lb)" and "1 \<le> nb"
    and "i < length (trailing df tk d aw)"
    and "close (trailing df tk d aw ! i) < min_close (trailing df tk d lb)
       \<or> max_close (trailing df tk d lb) < close (trailing df tk d aw ! i)"
  shows "cut_id (interpolated_edges (min_close (trailing df tk d lb))
             (max_close (trailing df tk d lb)) (nat nb))
           (Some (close (trailing df tk d aw ! i))) = None
     \<and> (\<forall>k f.
          group_gains (stats_rows (trailing df tk d aw)
              (interpolated_edges (min_close (trailing df tk d lb))
                 (max_close (trailing df tk d lb)) (nat nb))) k f =
          group_gains
            (take i (stats_rows (trailing df tk d aw)
                (interpolated_edges (min_close (trailing df tk d lb))
                   (max_close (trailing df tk d lb)) (nat nb)))
             @ drop (Suc i) (stats_rows (trailing df tk d aw)
                (interpolated_edges (min_close (trailing df tk d lb))
                   (max_close (trailing df tk d lb)) (nat nb)))) k f)
     \<and> (min_close (trailing df tk d lb) < max_close (trailing df tk d lb) \<or> nb = 1 \<longrightarrow>
          analyze_combined_performance df tk d lb aw nb =
            Inr (Stats (agg
              (take i (stats_rows (trailing df tk d aw)
                  (interpolated_edges (min_close (trailing df tk d lb))
                     (max_close (trailing df tk d lb)) (nat nb)))
               @ drop (Suc i) (stats_rows (trailing df tk d aw)
                  (interpolated_edges (min_close (trailing df tk d lb))
                     (max_close (trailing df tk d lb)) (nat nb))))
              (interpolated_edges (min_close (trailing df tk d lb))
                 (max_close (trailing df tk d lb)) (nat nb)) tk)))"
proof -
  let ?lo = "min_close (trailing df tk d lb)" and ?hi = "max_close (trailing df tk d lb)"
  let ?E = "interpolated_edges ?lo ?hi (nat nb)"
  let ?sub = "trailing df tk d aw"
  let ?rows = "stats_rows ?sub ?E"
  have ne: "trailing df tk d lb \<noteq> []" using assms(1) by auto
  have le: "?lo \<le> ?hi" by (rule min_close_le_max_close [OF ne])
  have n1: "1 \<le> nat nb" using assms(2) by simp
  have len: "length ?E = Suc (nat nb)" by (rule length_interpolated_edges)
  have E0: "?E \<noteq> []" by (simp add: interpolated_edges_def)
  have out: "close (?sub ! i) < ?E ! 0 \<or> ?E ! (length ?E - 1) < close (?sub ! i)"
    using assms(4) n1 by (simp add: len interpolated_edges_first interpolated_edges_last)
  have none: "cut_id ?E (Some (close (?sub ! i))) = None"
    by (rule cut_id_outside [OF interpolated_edges_sorted [OF le] E0 out])
  have i: "i < length ?rows" using assms(3) by (simp add: length_stats_rows)
  have "fst (snd (?rows ! i)) = None" using assms(3) none by (simp add: nth_stats_rows)
  then have d: "fst (?rows ! i) = None \<or> fst (snd (?rows ! i)) = None
     \<or> snd (snd (?rows ! i)) = None" by blast
  have gg: "\<forall>k f. group_gains ?rows k f = group_gains (take i ?rows @ drop (Suc i) ?rows) k f"
    using group_gains_drop_row [OF i d] by blast
  have res: "analyze_combined_performance df tk d lb aw nb =
      Inr (Stats (agg (take i ?rows @ drop (Suc i) ?rows) ?E tk))" if "?lo < ?hi \<or> nb = 1"
    using analyze_stats [OF assms(1,2) that, of aw] agg_drop_row [OF i d, of ?E tk] by simp
  show ?thesis
    apply (intro conjI)
    subgoal by (rule none)
    subgoal by (rule gg)
    subgoal using res by blast
    done
qed

theorem out_of_range_dropped_witness:
  "cut_id (interpolated_edges (min_close (trailing wide_df ''X'' 2 2))
       (max_close (trailing wide_df ''X'' 2 2)) (nat 1))
     (Some (close (trailing wide_df ''X'' 2 3 ! 0))) = None
   \<and> analyze_combined_performance wide_df ''X'' 2 2 3 1 =
       Inr (Stats (agg
         (take 0 (stats_rows (trailing wide_df ''X'' 2 3)
             (interpolated_edges (min_close (trailing wide_df ''X'' 2 2))
                (max_close (trailing wide_df ''X'' 2 2)) (nat 1)))
          @ drop (Suc 0) (stats_rows (trailing wide_df ''X'' 2 3)
             (interpolated_edges (min_close (trailing wide_df ''X'' 2 2))
                (max_close (trailing wide_df ''X'' 2 2)) (nat 1))))
         (interpolated_edges (min_close (trailing wide_df ''X'' 2 2))
            (max_close (trailing wide_df ''X'' 2 2)) (nat 1)) ''X''))"
proof -
  have a1: "2 \<le> length (trailing wide_df ''X'' 2 2)" by code_simp
  have a2: "1 \<le> (1::int)" by simp
  have a3: "0 < length (trailing wide_df ''X'' 2 3)" by code_simp
  have a4: "close (trailing wide_df ''X'' 2 3 ! 0) < min_close (trailing wide_df ''X'' 2 2)
       \<or> max_close (trailing wide_df ''X'' 2 2) < close (trailing wide_df ''X'' 2 3 ! 0)"
    by code_simp
  from out_of_range_dropped [OF a1 a2 a3 a4] show ?thesis by blast
qed

end
